theory Spec2Isabelle
  imports Complex_Main
begin

section \<open>The notebook \<open>zz_experiments.ipynb\<close> as a functional program\<close>

text \<open>
  The notebook is one linear procedure: configuration (cell 3), derived settings and the
  distributed-data-parallel setup (cell 5), data iterator, model and optimizer (cells 7 to
  12), and the training loop (cell 21). Python integers are modelled as \<open>int\<close>, finite
  floating-point numbers as the \<open>real\<close> numbers they denote (infinities and NaN have no
  counterpart), names of the kernel namespace that may be unbound as \<open>option\<close>, and every
  exception the modelled statements can raise as a value of \<open>py_error\<close>. The deep-learning
  framework (forward pass, autograd, optimizer, data loader) and the floating-point
  operations of the platform are parameters of the model; printing, timing, experiment
  tracking and the mfu estimate have no effect on the modelled state and are left out.
\<close>

subsection \<open>Exceptions\<close>

datatype py_error = ZeroDivisionError | AssertionError | KeyError | NameError

subsection \<open>Configuration (cells 3 and 5)\<close>

text \<open>
  The global hyperparameters the modelled cells read. The last four fields are the values
  cell 5 derives; cell 3 fixes \<open>lr_decay_iters = max_iters\<close> and \<open>min_lr = 0.0\<close>.
\<close>

record hyperparams =
  eval_interval :: int
  log_interval :: int
  eval_only :: bool
  always_save_checkpoint :: bool
  batch_size :: int
  max_seq_len :: int
  vocab_size :: int
  num_future_tokens :: int
  gradient_accumulation_steps :: int
  learning_rate :: real
  max_iters :: int
  grad_clip :: real
  decay_lr :: bool
  warmup_iters :: int
  lr_decay_iters :: int
  min_lr :: real
  ddp :: bool
  ddp_world_size :: int
  master_process :: bool
  seed_offset :: int

text \<open>
  The values written in cell 3, with the derived fields as cell 5 sets them in a
  single-process run.
\<close>

definition notebook_config :: hyperparams where
  "notebook_config =
     \<lparr> eval_interval = 2000, log_interval = 1, eval_only = False,
       always_save_checkpoint = False, batch_size = 1, max_seq_len = 30,
       vocab_size = 32000, num_future_tokens = 4, gradient_accumulation_steps = 4,
       learning_rate = 5 / 10000, max_iters = 100000, grad_clip = 1,
       decay_lr = True, warmup_iters = 1000, lr_decay_iters = 100000, min_lr = 0,
       ddp = False, ddp_world_size = 1, master_process = True, seed_offset = 0 \<rparr>"

text \<open>
  The process environment: \<open>os.environ\<close> restricted to the three variables cell 5 reads,
  already parsed by \<open>int(...)\<close>.
\<close>

record environ =
  RANK :: "int option"
  LOCAL_RANK :: "int option"
  WORLD_SIZE :: "int option"

text \<open>
  Cell 5:
  \<^verbatim>\<open>
  ddp = int(os.environ.get("RANK", -1)) != -1
  if ddp:
      ddp_rank = int(os.environ["RANK"])
      ddp_local_rank = int(os.environ["LOCAL_RANK"])
      ddp_world_size = int(os.environ["WORLD_SIZE"])
      master_process = ddp_rank == 0
      seed_offset = ddp_rank
      assert gradient_accumulation_steps % ddp_world_size == 0
      gradient_accumulation_steps //= ddp_world_size
  else:
      master_process = True
      seed_offset = 0
      ddp_world_size = 1
  \<close>
  Python's \<open>%\<close> and \<open>//\<close> on integers are floored, as \<open>mod\<close> and \<open>div\<close> on \<open>int\<close> are;
  a zero divisor raises.
\<close>

definition further_setting :: "environ \<Rightarrow> hyperparams \<Rightarrow> py_error + hyperparams" where
  "further_setting env hp =
     (if (case RANK env of None \<Rightarrow> - 1 | Some r \<Rightarrow> r) \<noteq> - 1 then
        (case RANK env of
           None \<Rightarrow> Inl KeyError
         | Some ddp_rank \<Rightarrow>
             (case LOCAL_RANK env of
                None \<Rightarrow> Inl KeyError
              | Some ddp_local_rank \<Rightarrow>
                  (case WORLD_SIZE env of
                     None \<Rightarrow> Inl KeyError
                   | Some w \<Rightarrow>
                       if w = 0 then Inl ZeroDivisionError
                       else if gradient_accumulation_steps hp mod w \<noteq> 0 then Inl AssertionError
                       else Inr (hp\<lparr> ddp := True, ddp_world_size := w,
                                    master_process := (ddp_rank = 0), seed_offset := ddp_rank,
                                    gradient_accumulation_steps :=
                                      gradient_accumulation_steps hp div w \<rparr>))))
      else Inr (hp\<lparr> ddp := False, master_process := True, seed_offset := 0,
                   ddp_world_size := 1 \<rparr>))"

text \<open>
  \<^verbatim>\<open>tokens_per_iter = gradient_accumulation_steps * ddp_world_size * batch_size * max_seq_len\<close>
\<close>

definition tokens_per_iter :: "hyperparams \<Rightarrow> int" where
  "tokens_per_iter hp =
     gradient_accumulation_steps hp * ddp_world_size hp * batch_size hp * max_seq_len hp"

text \<open>An environment without \<open>RANK\<close>: the single-process run.\<close>

definition single_process_env :: environ where
  "single_process_env = \<lparr> RANK = None, LOCAL_RANK = None, WORLD_SIZE = None \<rparr>"

subsection \<open>Multi-token-prediction targets\<close>

text \<open>
  Modelled from the spec: \<open>Task.iter_batches\<close> is defined in \<open>tinystories.py\<close>, which is not
  among the sources; the notebook only calls it (cells 7 and 12) and prints one batch
  (cells 14 and 15). The spec describes it as constructing future-token target tensors from
  a token stream, offset per head. Cell 16 of the notebook writes the window of offset \<open>k\<close>
  as the slice \<^verbatim>\<open>X[:, k : window_size + k]\<close> with \<open>window_size = 26 = 30 - 4\<close>; the targets
  are these windows for \<open>k = 1, ..., n\<close>, stacked along a new last axis. Outside
  \<open>1 \<le> n < L\<close> nothing is known about the absent code, and the model returns \<open>None\<close>.
\<close>

text \<open>Python's \<open>xs[lo:hi]\<close> for non-negative bounds: clipped to the list, empty when \<open>hi \<le> lo\<close>.\<close>

definition py_slice :: "'a list \<Rightarrow> nat \<Rightarrow> nat \<Rightarrow> 'a list" where
  "py_slice xs lo hi = take (hi - lo) (drop lo xs)"

definition head_window :: "nat \<Rightarrow> nat \<Rightarrow> 'a list \<Rightarrow> 'a list" where
  "head_window window_size k x = py_slice x k (window_size + k)"

text \<open>Stacking rows of length \<open>w\<close> along a new last axis: entry \<open>t\<close> collects position \<open>t\<close> of every row.\<close>

definition stack_last :: "nat \<Rightarrow> 'a list list \<Rightarrow> 'a list list" where
  "stack_last w hs = map (\<lambda>t. map (\<lambda>h. h ! t) hs) [0..<w]"

definition mtp_targets :: "nat \<Rightarrow> 'a list \<Rightarrow> 'a list list" where
  "mtp_targets n x =
     (let window_size = length x - n
      in stack_last window_size (map (\<lambda>k. head_window window_size k x) [1..<n + 1]))"

definition iter_batches_targets :: "nat \<Rightarrow> 'a list list \<Rightarrow> 'a list list list option" where
  "iter_batches_targets n X =
     (if 1 \<le> n \<and> list_all (\<lambda>x. n < length x) X then Some (map (mtp_targets n) X) else None)"

text \<open>The batch printed by cell 15: \<open>X\<close> of shape \<open>(1, 30)\<close> and \<open>Y\<close> of shape \<open>(1, 26, 4)\<close>.\<close>

definition cell15_X_row :: "int list" where
  "cell15_X_row =
     [322, 274, 566, 29881, 280, 1213, 13, 29924, 290, 322,
      270, 328, 3939, 278, 14064, 322, 298, 688, 3192, 365,
      2354, 322, 5918, 29889, 2688, 20654, 278, 11203, 322, 278]"

definition cell15_X :: "int list list" where
  "cell15_X = [cell15_X_row]"

definition cell15_Y_rows :: "int list list" where
  "cell15_Y_rows =
     [274, 566, 29881, 280] #
     [566, 29881, 280, 1213] #
     [29881, 280, 1213, 13] #
     [280, 1213, 13, 29924] #
     [1213, 13, 29924, 290] #
     [13, 29924, 290, 322] #
     [29924, 290, 322, 270] #
     [290, 322, 270, 328] #
     [322, 270, 328, 3939] #
     [270, 328, 3939, 278] #
     [328, 3939, 278, 14064] #
     [3939, 278, 14064, 322] #
     [278, 14064, 322, 298] #
     [14064, 322, 298, 688] #
     [322, 298, 688, 3192] #
     [298, 688, 3192, 365] #
     [688, 3192, 365, 2354] #
     [3192, 365, 2354, 322] #
     [365, 2354, 322, 5918] #
     [2354, 322, 5918, 29889] #
     [322, 5918, 29889, 2688] #
     [5918, 29889, 2688, 20654] #
     [29889, 2688, 20654, 278] #
     [2688, 20654, 278, 11203] #
     [20654, 278, 11203, 322] #
     [278, 11203, 322, 278] # []"

definition cell15_Y :: "int list list list" where
  "cell15_Y = [cell15_Y_rows]"

subsection \<open>Tensors, the framework and the state of the training loop\<close>

text \<open>
  A scalar loss tensor with its autograd graph: \<open>item\<close> is the number \<open>loss.item()\<close>
  returns (a float32 value, read as the real number it denotes), \<open>grad_fn\<close> the gradient
  with respect to the model parameters that \<open>loss.backward()\<close> adds to the \<open>.grad\<close>
  buffers.
\<close>

record 'g tensor =
  item :: real
  grad_fn :: 'g

text \<open>
  What the notebook takes from the framework and from the modules it imports, as
  parameters: \<open>last_loss p b\<close> is \<open>raw_model.last_loss\<close> after \<open>model(X, Y)\<close> on batch \<open>b\<close>
  with parameters \<open>p\<close>; \<open>next_batch k\<close> is the result of the \<open>k\<close>-th call
  \<open>next(train_batch_iter)\<close> (counted from 0); \<open>estimate_loss p i\<close> is the pair
  \<open>(out['train'], out['val'])\<close> that \<open>estimate_loss()\<close> of cell 12 returns when called at
  iteration \<open>i\<close> (it averages \<open>eval_iters\<close> losses per split under \<open>torch.no_grad()\<close> over
  iterators of its own, and changes neither parameters nor the training iterator);
  \<open>clip_grad_norm\<close> and \<open>optimizer_step\<close> are \<open>torch.nn.utils.clip_grad_norm_\<close> and
  \<open>optimizer.step()\<close>. The type \<open>'p\<close> holds the model parameters together with the
  optimizer's per-parameter state. The \<open>GradScaler\<close> is the disabled one the configured
  \<open>dtype = "bfloat16"\<close> gives: \<open>scale\<close>, \<open>unscale_\<close> and \<open>update\<close> do nothing and
  \<open>scaler.step(optimizer)\<close> is \<open>optimizer.step()\<close>. The model follows one process: the
  all-reduce that DDP performs across processes during a synchronising backward pass is
  the library's and is not part of it.

  The arithmetic on tensors and floats is the platform's, in floating point, and is a
  parameter as well: \<open>tensor_div t n\<close> is the tensor \<open>t / n\<close> for a Python integer \<open>n\<close>
  (its value and the gradient its backward pass yields); \<open>accumulate g h\<close> is the buffer
  \<open>g\<close> after autograd has added the gradient \<open>h\<close> to it in place; \<open>py_float_mul x n\<close> is
  Python's \<open>x * n\<close> for a float \<open>x\<close> and an integer \<open>n\<close>. Nothing is assumed about them
  in the model of the loop.
\<close>

record ('p, 'b, 'g) framework =
  last_loss :: "'p \<Rightarrow> 'b \<Rightarrow> 'g tensor"
  next_batch :: "nat \<Rightarrow> 'b"
  estimate_loss :: "'p \<Rightarrow> int \<Rightarrow> real \<times> real"
  clip_grad_norm :: "real \<Rightarrow> 'g \<Rightarrow> 'g"
  optimizer_step :: "real \<Rightarrow> 'g \<Rightarrow> 'p \<Rightarrow> 'p"
  tensor_div :: "'g tensor \<Rightarrow> int \<Rightarrow> 'g tensor"
  accumulate :: "'g \<Rightarrow> 'g \<Rightarrow> 'g"
  py_float_mul :: "real \<Rightarrow> int \<Rightarrow> real"

text \<open>
  \<open>loss.backward()\<close>: the gradient becomes the buffer when the buffer is \<open>None\<close> (as after
  \<^verbatim>\<open>optimizer.zero_grad(set_to_none=True)\<close>), and is accumulated into it otherwise.
\<close>

definition backward ::
  "('p, 'b, 'g) framework \<Rightarrow> 'g tensor \<Rightarrow> 'g option \<Rightarrow> 'g option" where
  "backward fw t acc =
     (case acc of None \<Rightarrow> Some (grad_fn t) | Some g \<Rightarrow> Some (accumulate fw g (grad_fn t)))"

text \<open>
  The effects of a run, in order: \<open>Eval i\<close> for a call of \<open>estimate_loss()\<close> at iteration
  \<open>i\<close>; \<open>SaveCheckpoint i b\<close> for \<open>torch.save\<close> of \<open>ckpt.pt\<close> with \<open>iter_num = i\<close> and
  \<open>best_val_loss = b\<close>; \<open>Export i\<close> for \<open>model_export\<close> writing \<open>model.bin\<close>;
  \<open>Backward m f l\<close> for the forward and backward pass of micro-step \<open>m\<close>, with the value
  \<open>f\<close> of \<open>model.require_backward_grad_sync\<close> at that moment and the number \<open>l\<close> held by
  the tensor given to \<open>backward()\<close>; \<open>OptimizerStep i\<close> for \<open>scaler.step(optimizer)\<close>;
  \<open>Log i lossf\<close> for the line printed at iteration \<open>i\<close>.
\<close>

datatype event =
    Eval int
  | SaveCheckpoint int real
  | Export int
  | Backward int bool real
  | OptimizerStep int
  | Log int real

text \<open>
  The mutable globals of cell 21. \<open>lr\<close> is the entry \<open>"lr"\<close> of the optimizer's parameter
  groups; \<open>XY\<close> the prefetched batch and \<open>batch_pos\<close> the number of batches drawn from
  \<open>train_batch_iter\<close>; \<open>grad\<close> the \<open>.grad\<close> buffers. \<open>loss\<close> and \<open>config\<close> are global names
  that may be unbound: \<open>loss\<close> is first assigned inside the micro-step loop, and no cell of
  the notebook assigns \<open>config\<close> (cell 3 builds \<open>config_keys\<close> only), which the
  checkpoint dictionary of cell 21 and \<open>wandb.init\<close> of cell 12 read.
\<close>

record ('p, 'b, 'g) train_state =
  iter_num :: int
  local_iter_num :: int
  best_val_loss :: real
  params :: 'p
  lr :: real
  XY :: 'b
  batch_pos :: nat
  loss :: "'g tensor option"
  grad :: "'g option"
  require_backward_grad_sync :: bool
  config :: "hyperparams option"
  trace :: "event list"

text \<open>
  A statement either raises, leaving the globals as they are at the raise (in a notebook
  they stay in the kernel), or completes.
\<close>

type_synonym ('p, 'b, 'g) outcome =
  "py_error \<times> ('p, 'b, 'g) train_state + ('p, 'b, 'g) train_state"

definition final_state :: "('p, 'b, 'g) outcome \<Rightarrow> ('p, 'b, 'g) train_state" where
  "final_state r = (case r of Inl (e, s) \<Rightarrow> s | Inr s \<Rightarrow> s)"

text \<open>
  The globals when cell 21 starts after \<open>init_from = "scratch"\<close>: cell 7 sets
  \<open>iter_num = 0\<close> and \<open>best_val_loss = 1e9\<close>, cell 10 builds the optimizer with
  \<open>learning_rate\<close>, cell 12 fetches the very first batch.
\<close>

definition notebook_start ::
  "hyperparams \<Rightarrow> ('p, 'b, 'g) framework \<Rightarrow> 'p \<Rightarrow> ('p, 'b, 'g) train_state" where
  "notebook_start hp fw p0 =
     \<lparr> iter_num = 0, local_iter_num = 0, best_val_loss = 1000000000, params = p0,
       lr = learning_rate hp, XY = next_batch fw 0, batch_pos = 1, loss = None,
       grad = None, require_backward_grad_sync = True, config = None, trace = [] \<rparr>"

subsection \<open>The learning-rate schedule (cell 12)\<close>

text \<open>
  \<^verbatim>\<open>
  def get_lr(it):
      if it < warmup_iters:
          return learning_rate * it / warmup_iters
      if it > lr_decay_iters:
          return min_lr
      decay_ratio = (it - warmup_iters) / (lr_decay_iters - warmup_iters)
      assert 0 <= decay_ratio <= 1
      coeff = 0.5 * (1.0 + math.cos(math.pi * decay_ratio))
      return min_lr + coeff * (learning_rate - min_lr)
  \<close>
\<close>

definition get_lr :: "hyperparams \<Rightarrow> int \<Rightarrow> py_error + real" where
  "get_lr hp it =
     (if it < warmup_iters hp then
        (if warmup_iters hp = 0 then Inl ZeroDivisionError
         else Inr (learning_rate hp * real_of_int it / real_of_int (warmup_iters hp)))
      else if it > lr_decay_iters hp then Inr (min_lr hp)
      else if lr_decay_iters hp - warmup_iters hp = 0 then Inl ZeroDivisionError
      else
        (let decay_ratio = real_of_int (it - warmup_iters hp)
                             / real_of_int (lr_decay_iters hp - warmup_iters hp)
         in if \<not> (0 \<le> decay_ratio \<and> decay_ratio \<le> 1) then Inl AssertionError
            else
              (let coeff = 0.5 * (1 + cos (pi * decay_ratio))
               in Inr (min_lr hp + coeff * (learning_rate hp - min_lr hp)))))"

subsection \<open>The training loop (cell 21)\<close>

text \<open>
  \<^verbatim>\<open>
  lr = get_lr(iter_num) if decay_lr else learning_rate
  for param_group in optimizer.param_groups:
      param_group["lr"] = lr
  \<close>
\<close>

definition set_lr ::
  "hyperparams \<Rightarrow> ('p, 'b, 'g) train_state \<Rightarrow> ('p, 'b, 'g) outcome" where
  "set_lr hp s =
     (if decay_lr hp then
        (case get_lr hp (iter_num s) of
           Inl e \<Rightarrow> Inl (e, s)
         | Inr r \<Rightarrow> Inr (s\<lparr> lr := r \<rparr>))
      else Inr (s\<lparr> lr := learning_rate hp \<rparr>))"

text \<open>
  \<^verbatim>\<open>
  if iter_num % eval_interval == 0 and master_process:
      losses = estimate_loss()
      ...
      if losses["val"] < best_val_loss or always_save_checkpoint:
          best_val_loss = losses["val"]
          if iter_num > 0:
              checkpoint = {
                  "model": raw_model.state_dict(),
                  "optimizer": optimizer.state_dict(),
                  "model_args": model_args,
                  "iter_num": iter_num,
                  "best_val_loss": best_val_loss,
                  "config": config,
              }
              torch.save(checkpoint, os.path.join(out_dir, "ckpt.pt"))
              model_export(raw_model, os.path.join(out_dir, "model.bin"), version=0)
  \<close>
  The modulo is evaluated before \<open>master_process\<close> is looked at. Building the dictionary
  reads the global \<open>config\<close>; when that name is unbound the statement raises \<open>NameError\<close>
  before \<open>torch.save\<close> is reached.
\<close>

definition evaluate_and_checkpoint ::
  "hyperparams \<Rightarrow> ('p, 'b, 'g) framework \<Rightarrow> ('p, 'b, 'g) train_state \<Rightarrow> ('p, 'b, 'g) outcome" where
  "evaluate_and_checkpoint hp fw s =
     (if eval_interval hp = 0 then Inl (ZeroDivisionError, s)
      else if iter_num s mod eval_interval hp = 0 \<and> master_process hp then
        (let losses = estimate_loss fw (params s) (iter_num s);
             s1 = s\<lparr> trace := trace s @ [Eval (iter_num s)] \<rparr>
         in if snd losses < best_val_loss s1 \<or> always_save_checkpoint hp then
              (let s2 = s1\<lparr> best_val_loss := snd losses \<rparr>
               in if iter_num s2 > 0 then
                    (case config s2 of
                       None \<Rightarrow> Inl (NameError, s2)
                     | Some c \<Rightarrow>
                         Inr (s2\<lparr> trace := trace s2 @
                                   [SaveCheckpoint (iter_num s2) (best_val_loss s2),
                                    Export (iter_num s2)] \<rparr>))
                  else Inr s2)
            else Inr s1)
      else Inr s)"

text \<open>\<open>range(n)\<close> for a Python integer \<open>n\<close>: empty when \<open>n \<le> 0\<close>.\<close>

definition py_range :: "int \<Rightarrow> int list" where
  "py_range n = map int [0..<nat n]"

text \<open>
  \<^verbatim>\<open>
  for micro_step in range(gradient_accumulation_steps):
      if ddp:
          model.require_backward_grad_sync = micro_step == gradient_accumulation_steps - 1
      with ctx:
          logits = model(X, Y)
          loss = raw_model.last_loss
          loss = loss / gradient_accumulation_steps
      X, Y = next(train_batch_iter)
      scaler.scale(loss).backward()
  \<close>
\<close>

definition micro_step_body ::
  "hyperparams \<Rightarrow> ('p, 'b, 'g) framework \<Rightarrow> int \<Rightarrow>
   ('p, 'b, 'g) train_state \<Rightarrow> ('p, 'b, 'g) train_state" where
  "micro_step_body hp fw micro_step s =
     (let s1 = (if ddp hp
                then s\<lparr> require_backward_grad_sync :=
                          (micro_step = gradient_accumulation_steps hp - 1) \<rparr>
                else s);
          l = tensor_div fw (last_loss fw (params s1) (XY s1))
                (gradient_accumulation_steps hp);
          s2 = s1\<lparr> loss := Some l \<rparr>;
          s3 = s2\<lparr> XY := next_batch fw (batch_pos s2), batch_pos := Suc (batch_pos s2) \<rparr>
      in s3\<lparr> grad := backward fw l (grad s3),
              trace := trace s3 @
                [Backward micro_step (require_backward_grad_sync s3) (item l)] \<rparr>)"

fun micro_steps ::
  "hyperparams \<Rightarrow> ('p, 'b, 'g) framework \<Rightarrow> int list \<Rightarrow>
   ('p, 'b, 'g) train_state \<Rightarrow> ('p, 'b, 'g) train_state" where
  "micro_steps hp fw [] s = s"
| "micro_steps hp fw (micro_step # rest) s =
     micro_steps hp fw rest (micro_step_body hp fw micro_step s)"

definition forward_backward ::
  "hyperparams \<Rightarrow> ('p, 'b, 'g) framework \<Rightarrow>
   ('p, 'b, 'g) train_state \<Rightarrow> ('p, 'b, 'g) train_state" where
  "forward_backward hp fw s =
     micro_steps hp fw (py_range (gradient_accumulation_steps hp)) s"

text \<open>
  \<^verbatim>\<open>
  if grad_clip != 0.0:
      scaler.unscale_(optimizer)
      torch.nn.utils.clip_grad_norm_(model.parameters(), grad_clip)
  scaler.step(optimizer)
  scaler.update()
  optimizer.zero_grad(set_to_none=True)
  \<close>
  Without gradients (no micro-step ran) clipping and the optimizer change nothing.
\<close>

definition optimizer_update ::
  "hyperparams \<Rightarrow> ('p, 'b, 'g) framework \<Rightarrow> ('p, 'b, 'g) train_state \<Rightarrow> ('p, 'b, 'g) train_state" where
  "optimizer_update hp fw s =
     (let s1 = (if grad_clip hp \<noteq> 0
                then s\<lparr> grad := map_option (clip_grad_norm fw (grad_clip hp)) (grad s) \<rparr>
                else s);
          s2 = s1\<lparr> params := (case grad s1 of
                                None \<Rightarrow> params s1
                              | Some g \<Rightarrow> optimizer_step fw (lr s1) g (params s1)),
                   trace := trace s1 @ [OptimizerStep (iter_num s1)] \<rparr>
      in s2\<lparr> grad := None \<rparr>)"

text \<open>
  \<^verbatim>\<open>
  if iter_num % log_interval == 0 and master_process:
      lossf = loss.item() * gradient_accumulation_steps
      ...
      print(f"{iter_num} | loss {lossf:.4f} | ...")
  \<close>
\<close>

definition log_phase ::
  "hyperparams \<Rightarrow> ('p, 'b, 'g) framework \<Rightarrow> ('p, 'b, 'g) train_state \<Rightarrow>
   ('p, 'b, 'g) outcome" where
  "log_phase hp fw s =
     (if log_interval hp = 0 then Inl (ZeroDivisionError, s)
      else if iter_num s mod log_interval hp = 0 \<and> master_process hp then
        (case loss s of
           None \<Rightarrow> Inl (NameError, s)
         | Some l \<Rightarrow>
             (let lossf = py_float_mul fw (item l) (gradient_accumulation_steps hp)
              in Inr (s\<lparr> trace := trace s @ [Log (iter_num s) lossf] \<rparr>)))
      else Inr s)"

text \<open>
  One pass through the body of \<open>while True:\<close>, ending in \<open>break\<close> or in the next pass:
  \<^verbatim>\<open>
  while True:
      (set the learning rate)
      (evaluate and write checkpoints)
      if iter_num == 0 and eval_only:
          break
      (micro-steps, clipping, optimizer step, zero_grad)
      (logging)
      iter_num += 1
      local_iter_num += 1
      if iter_num > max_iters:
          break
  \<close>
\<close>

datatype control = Break | Continue

definition loop_body ::
  "hyperparams \<Rightarrow> ('p, 'b, 'g) framework \<Rightarrow> ('p, 'b, 'g) train_state \<Rightarrow>
   py_error \<times> ('p, 'b, 'g) train_state + control \<times> ('p, 'b, 'g) train_state" where
  "loop_body hp fw s =
     (case set_lr hp s of
        Inl e \<Rightarrow> Inl e
      | Inr s1 \<Rightarrow>
          (case evaluate_and_checkpoint hp fw s1 of
             Inl e \<Rightarrow> Inl e
           | Inr s2 \<Rightarrow>
               if iter_num s2 = 0 \<and> eval_only hp then Inr (Break, s2)
               else
                 (let s3 = forward_backward hp fw s2;
                      s4 = optimizer_update hp fw s3
                  in case log_phase hp fw s4 of
                       Inl e \<Rightarrow> Inl e
                     | Inr s5 \<Rightarrow>
                         (let s6 = s5\<lparr> iter_num := iter_num s5 + 1,
                                        local_iter_num := local_iter_num s5 + 1 \<rparr>
                          in if iter_num s6 > max_iters hp then Inr (Break, s6)
                             else Inr (Continue, s6)))))"

text \<open>
  The loop itself. Nothing in its form bounds the number of passes, so it is a partial
  function: \<open>None\<close> stands for a run that never leaves the loop, \<open>Some (Inl (e, s))\<close> for a
  run that raises \<open>e\<close>, \<open>Some (Inr s)\<close> for a run that reaches a \<open>break\<close>.
\<close>

partial_function (option) train_loop ::
  "hyperparams \<Rightarrow> ('p, 'b, 'g) framework \<Rightarrow> ('p, 'b, 'g) train_state \<Rightarrow>
   ('p, 'b, 'g) outcome option" where
  "train_loop hp fw s =
     (case loop_body hp fw s of
        Inl e \<Rightarrow> Some (Inl e)
      | Inr (Break, s') \<Rightarrow> Some (Inr s')
      | Inr (Continue, s') \<Rightarrow> train_loop hp fw s')"

subsection \<open>Reading a trace\<close>

fun optimizer_steps :: "event list \<Rightarrow> int list" where
  "optimizer_steps [] = []"
| "optimizer_steps (OptimizerStep i # es) = i # optimizer_steps es"
| "optimizer_steps (e # es) = optimizer_steps es"

fun backward_syncs :: "event list \<Rightarrow> (int \<times> bool) list" where
  "backward_syncs [] = []"
| "backward_syncs (Backward m f l # es) = (m, f) # backward_syncs es"
| "backward_syncs (e # es) = backward_syncs es"

fun written_files :: "event list \<Rightarrow> event list" where
  "written_files [] = []"
| "written_files (SaveCheckpoint i b # es) = SaveCheckpoint i b # written_files es"
| "written_files (Export i # es) = Export i # written_files es"
| "written_files (e # es) = written_files es"

text \<open>
  What a run did and how it ended: the exception it raised, if any, and the iterations at
  which it performed an optimizer update.
\<close>

definition run_summary ::
  "('p, 'b, 'g) outcome option \<Rightarrow> (py_error option \<times> int list) option" where
  "run_summary r =
     map_option
       (\<lambda>out. (case out of Inl (e, s) \<Rightarrow> Some e | Inr s \<Rightarrow> None,
               optimizer_steps (trace (final_state out)))) r"

text \<open>The learning rate of the optimizer's parameter groups when a run has ended.\<close>

definition final_lr :: "('p, 'b, 'g) outcome option \<Rightarrow> real option" where
  "final_lr r = map_option (\<lambda>out. lr (final_state out)) r"

text \<open>
  The batch micro-step \<open>k\<close> of an iteration works on, seen from the state \<open>s\<close> at the start
  of the iteration: the prefetched one, then the batches drawn during the iteration.
\<close>

definition micro_batch :: "('p, 'b, 'g) framework \<Rightarrow> ('p, 'b, 'g) train_state \<Rightarrow> nat \<Rightarrow> 'b" where
  "micro_batch fw s k = (if k = 0 then XY s else next_batch fw (batch_pos s + k - 1))"

text \<open>
  The tensor micro-step \<open>k\<close> gives to \<open>backward\<close>: the model loss on that batch, divided by
  \<open>gradient_accumulation_steps\<close> as the platform divides.
\<close>

definition scaled_loss ::
  "hyperparams \<Rightarrow> ('p, 'b, 'g) framework \<Rightarrow> ('p, 'b, 'g) train_state \<Rightarrow> nat \<Rightarrow> 'g tensor" where
  "scaled_loss hp fw s k =
     tensor_div fw (last_loss fw (params s) (micro_batch fw s k))
       (gradient_accumulation_steps hp)"

text \<open>
  The buffer that successive backward passes with the gradients \<open>gs\<close> leave when they
  start from an empty one: the first gradient, with the others accumulated in order.
\<close>

definition running_sum :: "('p, 'b, 'g) framework \<Rightarrow> 'g list \<Rightarrow> 'g option" where
  "running_sum fw gs =
     (case gs of [] \<Rightarrow> None | g # rest \<Rightarrow> Some (foldl (accumulate fw) g rest))"

text \<open>
  The value of \<open>require_backward_grad_sync\<close> during micro-step \<open>m\<close>: assigned under DDP,
  untouched otherwise.
\<close>

definition sync_at :: "hyperparams \<Rightarrow> ('p, 'b, 'g) train_state \<Rightarrow> int \<Rightarrow> bool" where
  "sync_at hp s m =
     (if ddp hp then m = gradient_accumulation_steps hp - 1 else require_backward_grad_sync s)"

subsection \<open>Floating-point arithmetic\<close>

text \<open>
  IEEE 754 binary formats on finite values, as real numbers: \<open>round_binary p emin x\<close> is
  \<open>x\<close> rounded to the nearest number with \<open>p\<close> significant bits, ties to the even
  significand, where numbers below \<open>2 ^ emin\<close> share the spacing of the smallest normal
  binade (gradual underflow). \<open>float32\<close> is the format of the loss tensor, \<open>float64\<close>
  that of a Python float. Overflow to infinity, infinities and NaN have no counterpart
  here; the statements made with these functions stay below the largest finite value.
\<close>

definition round_half_even :: "real \<Rightarrow> int" where
  "round_half_even x =
     (let f = \<lfloor>x\<rfloor>
      in if x - of_int f < 1 / 2 then f
         else if 1 / 2 < x - of_int f then f + 1
         else if even f then f else f + 1)"

definition round_binary :: "nat \<Rightarrow> int \<Rightarrow> real \<Rightarrow> real" where
  "round_binary p emin x =
     (if x = 0 then 0
      else
        (let e = max \<lfloor>log 2 \<bar>x\<bar>\<rfloor> emin;
             ulp = 2 powr real_of_int (e - (int p - 1))
         in real_of_int (round_half_even (x / ulp)) * ulp))"

definition float32 :: "real \<Rightarrow> real" where
  "float32 = round_binary 24 (- 126)"

definition float64 :: "real \<Rightarrow> real" where
  "float64 = round_binary 53 (- 1022)"

text \<open>
  A platform computes in IEEE arithmetic when, for 64-bit integers \<open>n\<close>, \<open>loss / n\<close> is the
  float32 quotient of the loss by the integer converted to float32 (the true division of
  the CPU kernel, the device cell 3 configures), and \<open>x * n\<close> is the float64 product of
  \<open>x\<close> by the integer converted to float64. It computes exactly when no operation rounds.
\<close>

definition ieee_arithmetic :: "('p, 'b, 'g) framework \<Rightarrow> bool" where
  "ieee_arithmetic fw \<longleftrightarrow>
     (\<forall>t n. \<bar>n\<bar> < 2 ^ 63 \<longrightarrow>
              item (tensor_div fw t n) = float32 (item t / float32 (real_of_int n)))
     \<and> (\<forall>x n. \<bar>n\<bar> < 2 ^ 63 \<longrightarrow>
              py_float_mul fw x n = float64 (x * float64 (real_of_int n)))"

definition exact_arithmetic :: "('p, 'b, 'g::real_vector) framework \<Rightarrow> bool" where
  "exact_arithmetic fw \<longleftrightarrow>
     (\<forall>t n. tensor_div fw t n =
              \<lparr> item = item t / real_of_int n, grad_fn = grad_fn t /\<^sub>R real_of_int n \<rparr>)
     \<and> (\<forall>g h. accumulate fw g h = g + h)
     \<and> (\<forall>x n. py_float_mul fw x n = x * real_of_int n)"

subsection \<open>A small concrete instance\<close>

text \<open>
  A framework over real numbers on which the loop can be run by rewriting: the loss of
  parameter \<open>p\<close> on batch \<open>b\<close> is \<open>p + b\<close> with gradient 1, the \<open>k\<close>-th batch is the number
  \<open>k\<close>, both evaluation losses are \<open>p\<close>, clipping is the identity, the optimizer is
  plain gradient descent and the arithmetic is exact. The configuration is the notebook's, shortened to two
  iterations of two micro-steps with a constant learning rate.
\<close>

definition toy_framework :: "(real, real, real) framework" where
  "toy_framework =
     \<lparr> last_loss = (\<lambda>p b. \<lparr> item = p + b, grad_fn = 1 \<rparr>),
       next_batch = (\<lambda>k. real k),
       estimate_loss = (\<lambda>p i. (p, p)),
       clip_grad_norm = (\<lambda>c g. g),
       optimizer_step = (\<lambda>r g p. p - r * g),
       tensor_div = (\<lambda>t n. \<lparr> item = item t / real_of_int n,
                                 grad_fn = grad_fn t / real_of_int n \<rparr>),
       accumulate = (\<lambda>g h. g + h),
       py_float_mul = (\<lambda>x n. x * real_of_int n) \<rparr>"

definition toy_config :: hyperparams where
  "toy_config =
     notebook_config\<lparr> eval_interval := 2, max_iters := 1, gradient_accumulation_steps := 2,
                       decay_lr := False, learning_rate := 1 \<rparr>"

definition toy_start :: "(real, real, real) train_state" where
  "toy_start = notebook_start toy_config toy_framework 3"

text \<open>
  An instance with IEEE arithmetic that follows the loss values only (its gradients are
  constantly zero): the model loss is the parameter itself, here 1.0 on every batch.
\<close>

definition float_framework :: "(real, real, real) framework" where
  "float_framework =
     \<lparr> last_loss = (\<lambda>p b. \<lparr> item = p, grad_fn = 0 \<rparr>),
       next_batch = (\<lambda>k. real k),
       estimate_loss = (\<lambda>p i. (p, p)),
       clip_grad_norm = (\<lambda>c g. g),
       optimizer_step = (\<lambda>r g p. p),
       tensor_div = (\<lambda>t n. \<lparr> item = float32 (item t / float32 (real_of_int n)),
                                 grad_fn = 0 \<rparr>),
       accumulate = (\<lambda>g h. 0),
       py_float_mul = (\<lambda>x n. float64 (x * float64 (real_of_int n))) \<rparr>"

definition float_config :: "int \<Rightarrow> hyperparams" where
  "float_config n = toy_config\<lparr> gradient_accumulation_steps := n \<rparr>"

definition float_start :: "(real, real, real) train_state" where
  "float_start = notebook_start toy_config float_framework 1"

text \<open>The events of one pass through the loop body, or the exception it raises.\<close>

definition pass_events ::
  "py_error \<times> ('p, 'b, 'g) train_state + control \<times> ('p, 'b, 'g) train_state \<Rightarrow>
   py_error + event list" where
  "pass_events r = (case r of Inl (e, s) \<Rightarrow> Inl e | Inr (c, s) \<Rightarrow> Inr (trace s))"

section \<open>Distributed setup keeps the tokens per iteration\<close>

lemma further_setting_single:
  "further_setting single_process_env hp =
     Inr (hp\<lparr> ddp := False, master_process := True, seed_offset := 0, ddp_world_size := 1 \<rparr>)"
  by (simp add: further_setting_def single_process_env_def)

lemma tokens_per_iter_single:
  "further_setting single_process_env hp = Inr hp1 \<Longrightarrow>
   tokens_per_iter hp1 = gradient_accumulation_steps hp * batch_size hp * max_seq_len hp"
  by (auto simp: further_setting_single tokens_per_iter_def)

text \<open>
  Claim C6. Under distributed data parallel (\<open>RANK\<close> different from \<open>-1\<close>, \<open>LOCAL_RANK\<close> and
  \<open>WORLD_SIZE\<close> set) the setup succeeds exactly when the world size is not zero and
  divides the configured \<open>gradient_accumulation_steps\<close>; otherwise the assertion, or the
  modulo itself, raises. When it succeeds, the accumulation steps are divided by the
  world size and \<open>tokens_per_iter\<close> equals the configured
  \<open>gradient_accumulation_steps * batch_size * max_seq_len\<close>, which is also the value of the
  single-process run.
\<close>

theorem ddp_tokens_per_iter_invariant:
  assumes rank: "RANK env = Some r" "r \<noteq> - 1"
    and lrank: "LOCAL_RANK env = Some local_rank"
    and world: "WORLD_SIZE env = Some w"
  shows "(w \<noteq> 0 \<and> gradient_accumulation_steps hp mod w = 0 \<longrightarrow>
            (\<exists>hp'. further_setting env hp = Inr hp' \<and> ddp hp' \<and> ddp_world_size hp' = w
               \<and> gradient_accumulation_steps hp' = gradient_accumulation_steps hp div w
               \<and> tokens_per_iter hp' =
                   gradient_accumulation_steps hp * batch_size hp * max_seq_len hp
               \<and> (\<forall>hp1. further_setting single_process_env hp = Inr hp1 \<longrightarrow>
                      tokens_per_iter hp' = tokens_per_iter hp1)))
       \<and> (w \<noteq> 0 \<and> gradient_accumulation_steps hp mod w \<noteq> 0 \<longrightarrow>
            further_setting env hp = Inl AssertionError)
       \<and> (w = 0 \<longrightarrow> further_setting env hp = Inl ZeroDivisionError)"
proof (intro conjI impI)
  assume ok: "w \<noteq> 0 \<and> gradient_accumulation_steps hp mod w = 0"
  let ?hp' = "hp\<lparr> ddp := True, ddp_world_size := w, master_process := (r = 0),
                   seed_offset := r,
                   gradient_accumulation_steps := gradient_accumulation_steps hp div w \<rparr>"
  have run: "further_setting env hp = Inr ?hp'"
    using rank lrank world ok by (simp add: further_setting_def)
  from ok have undo: "gradient_accumulation_steps hp div w * w = gradient_accumulation_steps hp"
    using div_mult_mod_eq [of "gradient_accumulation_steps hp" w] by simp
  have tok: "tokens_per_iter ?hp' =
               gradient_accumulation_steps hp * batch_size hp * max_seq_len hp"
    by (simp add: tokens_per_iter_def undo)
  have single: "\<forall>hp1. further_setting single_process_env hp = Inr hp1 \<longrightarrow>
                  tokens_per_iter ?hp' = tokens_per_iter hp1"
    using tok tokens_per_iter_single by metis
  show "\<exists>hp'. further_setting env hp = Inr hp' \<and> ddp hp' \<and> ddp_world_size hp' = w
          \<and> gradient_accumulation_steps hp' = gradient_accumulation_steps hp div w
          \<and> tokens_per_iter hp' =
              gradient_accumulation_steps hp * batch_size hp * max_seq_len hp
          \<and> (\<forall>hp1. further_setting single_process_env hp = Inr hp1 \<longrightarrow>
                 tokens_per_iter hp' = tokens_per_iter hp1)"
    using run tok single by (intro exI [of _ ?hp']) simp
next
  assume "w \<noteq> 0 \<and> gradient_accumulation_steps hp mod w \<noteq> 0"
  then show "further_setting env hp = Inl AssertionError"
    using rank lrank world by (simp add: further_setting_def)
next
  assume "w = 0"
  then show "further_setting env hp = Inl ZeroDivisionError"
    using rank lrank world by (simp add: further_setting_def)
qed

text \<open>
  The notebook's configuration on two processes: four accumulation steps become two, and
  the tokens per iteration stay at \<open>4 * 1 * 30 = 120\<close>, the number cell 5 prints.
\<close>

theorem ddp_tokens_per_iter_invariant_witness:
  "\<exists>hp'. further_setting \<lparr> RANK = Some 1, LOCAL_RANK = Some 1, WORLD_SIZE = Some 2 \<rparr>
            notebook_config = Inr hp'
       \<and> gradient_accumulation_steps hp' = 2 \<and> ddp_world_size hp' = 2
       \<and> tokens_per_iter hp' = 120"
proof -
  have acc: "gradient_accumulation_steps notebook_config = 4"
    and bs: "batch_size notebook_config = 1" and len: "max_seq_len notebook_config = 30"
    by (simp_all add: notebook_config_def)
  from ddp_tokens_per_iter_invariant
    [of "\<lparr> RANK = Some 1, LOCAL_RANK = Some 1, WORLD_SIZE = Some 2 \<rparr>" 1 1 2 notebook_config]
  show ?thesis
    by (simp add: acc bs len) blast
qed

section \<open>Target windows of multi-token prediction\<close>

lemma head_window_nth:
  "t < w \<Longrightarrow> k \<le> length x \<Longrightarrow> head_window w k x ! t = x ! (k + t)"
  by (simp add: head_window_def py_slice_def)

lemma length_mtp_targets: "length (mtp_targets n x) = length x - n"
  by (simp add: mtp_targets_def stack_last_def Let_def del: upt_Suc)

lemma length_mtp_targets_row:
  "t < length x - n \<Longrightarrow> length (mtp_targets n x ! t) = n"
  by (simp add: mtp_targets_def stack_last_def Let_def del: upt_Suc)

lemma mtp_targets_nth:
  assumes "t < length x - n" "k < n"
  shows "mtp_targets n x ! t ! k = x ! (t + 1 + k)"
proof -
  have "mtp_targets n x ! t ! k = head_window (length x - n) (1 + k) x ! t"
    using assms by (simp add: mtp_targets_def stack_last_def Let_def del: upt_Suc)
  also have "\<dots> = x ! (1 + k + t)"
    using assms by (intro head_window_nth) auto
  finally show ?thesis by (simp add: add.commute add.left_commute)
qed

text \<open>
  Claim C1. For a batch \<open>X\<close> of token rows of length \<open>L\<close> and \<open>n\<close> future tokens with
  \<open>1 \<le> n < L\<close>, the targets \<open>Y\<close> exist and have shape \<open>(batch, L - n, n)\<close>, and
  \<open>Y[b][t][k] = X[b][t + 1 + k]\<close> for every batch index \<open>b\<close>, position \<open>t < L - n\<close> and head
  \<open>k < n\<close>: head \<open>k\<close> sees the token stream shifted forward by \<open>k + 1\<close>.
\<close>

theorem iter_batches_windowing:
  assumes "1 \<le> n" "n < L" "list_all (\<lambda>x. length x = L) X"
  shows "\<exists>Y. iter_batches_targets n X = Some Y \<and> length Y = length X
           \<and> list_all (\<lambda>y. length y = L - n \<and> list_all (\<lambda>r. length r = n) y) Y
           \<and> (\<forall>b t k. b < length X \<and> t < L - n \<and> k < n \<longrightarrow> Y ! b ! t ! k = X ! b ! (t + 1 + k))"
proof -
  from assms(3) have len: "\<And>x. x \<in> set X \<Longrightarrow> length x = L"
    by (simp add: list_all_iff)
  with assms(2) have "list_all (\<lambda>x. n < length x) X"
    by (simp add: list_all_iff)
  with assms(1) have run: "iter_batches_targets n X = Some (map (mtp_targets n) X)"
    by (simp add: iter_batches_targets_def)
  have shape: "list_all (\<lambda>y. length y = L - n \<and> list_all (\<lambda>r. length r = n) y)
                 (map (mtp_targets n) X)"
  proof -
    have "length (mtp_targets n x) = L - n \<and> list_all (\<lambda>r. length r = n) (mtp_targets n x)"
      if "x \<in> set X" for x
    proof -
      have lx: "length x = L" using that by (rule len)
      have "length (mtp_targets n x ! t) = n" if "t < length (mtp_targets n x)" for t
        using that by (simp add: length_mtp_targets length_mtp_targets_row)
      then have "list_all (\<lambda>r. length r = n) (mtp_targets n x)"
        by (auto simp: list_all_iff in_set_conv_nth)
      with lx show ?thesis by (simp add: length_mtp_targets)
    qed
    then show ?thesis by (simp add: list_all_iff)
  qed
  have entries: "\<forall>b t k. b < length X \<and> t < L - n \<and> k < n \<longrightarrow>
                   map (mtp_targets n) X ! b ! t ! k = X ! b ! (t + 1 + k)"
    using len by (simp add: mtp_targets_nth)
  from run shape entries show ?thesis by simp
qed

text \<open>The model reproduces the batch cell 15 prints.\<close>

lemma cell15_recorded: "iter_batches_targets 4 cell15_X = Some cell15_Y"
  by (simp add: iter_batches_targets_def cell15_X_def cell15_X_row_def cell15_Y_def
        cell15_Y_rows_def mtp_targets_def stack_last_def head_window_def py_slice_def
        upt_rec [of _ "numeral _"] upt_rec [of 1 "Suc _"])

theorem iter_batches_windowing_witness:
  "\<exists>Y. iter_batches_targets 4 cell15_X = Some Y \<and> length Y = 1
       \<and> length (Y ! 0) = 26 \<and> length (Y ! 0 ! 25) = 4
       \<and> Y ! 0 ! 25 ! 3 = cell15_X ! 0 ! 29"
proof -
  have a: "(1::nat) \<le> 4" "(4::nat) < 30" "list_all (\<lambda>x. length x = 30) cell15_X"
    by (simp_all add: cell15_X_def cell15_X_row_def)
  from iter_batches_windowing [OF a]
  obtain Y where run: "iter_batches_targets 4 cell15_X = Some Y"
    and len: "length Y = length cell15_X"
    and shape: "list_all (\<lambda>y. length y = 30 - 4 \<and> list_all (\<lambda>r. length r = 4) y) Y"
    and entries: "\<forall>b t k. b < length cell15_X \<and> t < 30 - 4 \<and> k < 4 \<longrightarrow>
                    Y ! b ! t ! k = cell15_X ! b ! (t + 1 + k)"
    by blast
  from len have one: "length Y = 1" by (simp add: cell15_X_def)
  then obtain y where Y: "Y = [y]" by (cases Y) auto
  with shape have y: "length y = 26" "list_all (\<lambda>r. length r = 4) y" by simp_all
  then have row: "length (y ! 25) = 4" by (simp add: list_all_length)
  from entries have "Y ! 0 ! 25 ! 3 = cell15_X ! 0 ! (25 + 1 + 3)"
    by (simp add: cell15_X_def)
  with run one Y y(1) row show ?thesis by simp
qed

section \<open>The micro-step loop\<close>

text \<open>
  The loop over \<open>range(gradient_accumulation_steps)\<close> is a left fold; its effect after
  \<open>n\<close> micro-steps is described relative to the state the iteration started in.
\<close>

lemma micro_steps_snoc:
  "micro_steps hp fw (ms @ [m]) s = micro_step_body hp fw m (micro_steps hp fw ms s)"
  by (induction ms arbitrary: s) simp_all

lemma micro_steps_params [simp]: "params (micro_steps hp fw ms s) = params s"
  by (induction ms arbitrary: s) (simp_all add: micro_step_body_def Let_def)

lemma micro_steps_iter_num [simp]: "iter_num (micro_steps hp fw ms s) = iter_num s"
  by (induction ms arbitrary: s) (simp_all add: micro_step_body_def Let_def)

lemma micro_steps_local_iter_num [simp]:
  "local_iter_num (micro_steps hp fw ms s) = local_iter_num s"
  by (induction ms arbitrary: s) (simp_all add: micro_step_body_def Let_def)

lemma micro_steps_best_val_loss [simp]:
  "best_val_loss (micro_steps hp fw ms s) = best_val_loss s"
  by (induction ms arbitrary: s) (simp_all add: micro_step_body_def Let_def)

lemma micro_steps_lr [simp]: "lr (micro_steps hp fw ms s) = lr s"
  by (induction ms arbitrary: s) (simp_all add: micro_step_body_def Let_def)

lemma micro_steps_config [simp]: "config (micro_steps hp fw ms s) = config s"
  by (induction ms arbitrary: s) (simp_all add: micro_step_body_def Let_def)

lemma micro_steps_batch_pos [simp]:
  "batch_pos (micro_steps hp fw ms s) = batch_pos s + length ms"
  by (induction ms arbitrary: s) (simp_all add: micro_step_body_def Let_def)

lemma micro_steps_XY:
  "XY (micro_steps hp fw ms s) = micro_batch fw s (length ms)"
  by (induction ms rule: rev_induct)
     (simp_all add: micro_steps_snoc micro_step_body_def Let_def micro_batch_def)

lemma micro_steps_loss:
  "loss (micro_steps hp fw (map int [0..<Suc n]) s) = Some (scaled_loss hp fw s n)"
  by (simp add: micro_steps_snoc micro_step_body_def Let_def micro_steps_XY scaled_loss_def)

lemma micro_steps_sync_unchanged:
  "\<not> ddp hp \<Longrightarrow>
   require_backward_grad_sync (micro_steps hp fw ms s) = require_backward_grad_sync s"
  by (induction ms arbitrary: s) (simp_all add: micro_step_body_def Let_def)

lemma micro_steps_trace:
  "trace (micro_steps hp fw (map int [0..<n]) s) =
     trace s @ map (\<lambda>k. Backward (int k) (sync_at hp s (int k))
                        (item (scaled_loss hp fw s k))) [0..<n]"
proof (induction n)
  case 0
  show ?case by simp
next
  case (Suc n)
  show ?case
    by (simp add: micro_steps_snoc Suc micro_step_body_def Let_def
          micro_steps_XY sync_at_def micro_steps_sync_unchanged scaled_loss_def)
qed

lemma micro_steps_upt_Suc:
  "micro_steps hp fw (map int [0..<Suc n]) s =
     micro_step_body hp fw (int n) (micro_steps hp fw (map int [0..<n]) s)"
  by (simp add: micro_steps_snoc)

lemma grad_micro_step_body:
  "grad (micro_step_body hp fw m s) =
     backward fw (tensor_div fw (last_loss fw (params s) (XY s))
                    (gradient_accumulation_steps hp)) (grad s)"
  by (simp add: micro_step_body_def Let_def)

lemma running_sum_snoc:
  "running_sum fw (gs @ [grad_fn t]) = backward fw t (running_sum fw gs)"
  by (cases gs) (simp_all add: running_sum_def backward_def)

lemma micro_steps_grad:
  assumes "grad s = None"
  shows "grad (micro_steps hp fw (map int [0..<n]) s) =
           running_sum fw (map (\<lambda>k. grad_fn (scaled_loss hp fw s k)) [0..<n])"
proof (induction n)
  case 0
  show ?case by (simp add: assms running_sum_def)
next
  case (Suc n)
  have "grad (micro_steps hp fw (map int [0..<Suc n]) s) =
          backward fw (scaled_loss hp fw s n) (grad (micro_steps hp fw (map int [0..<n]) s))"
    by (simp only: micro_steps_upt_Suc grad_micro_step_body micro_steps_params micro_steps_XY
          length_map length_upt diff_zero scaled_loss_def)
  also have "\<dots> = running_sum fw
                     (map (\<lambda>k. grad_fn (scaled_loss hp fw s k)) [0..<n]
                      @ [grad_fn (scaled_loss hp fw s n)])"
    by (simp only: Suc running_sum_snoc)
  finally show ?case by simp
qed

lemma py_range_upt: "py_range g = map int [0..<nat g]"
  by (simp add: py_range_def)

lemma optimizer_steps_append [simp]:
  "optimizer_steps (xs @ ys) = optimizer_steps xs @ optimizer_steps ys"
  by (induction xs rule: optimizer_steps.induct) simp_all

lemma backward_syncs_append [simp]:
  "backward_syncs (xs @ ys) = backward_syncs xs @ backward_syncs ys"
  by (induction xs rule: backward_syncs.induct) simp_all

lemma written_files_append [simp]:
  "written_files (xs @ ys) = written_files xs @ written_files ys"
  by (induction xs rule: written_files.induct) simp_all

lemma optimizer_steps_Backward [simp]:
  "optimizer_steps (map (\<lambda>k. Backward (m k) (f k) (l k)) ks) = []"
  by (induction ks) simp_all

lemma written_files_Backward [simp]:
  "written_files (map (\<lambda>k. Backward (m k) (f k) (l k)) ks) = []"
  by (induction ks) simp_all

lemma backward_syncs_Backward [simp]:
  "backward_syncs (map (\<lambda>k. Backward (m k) (f k) (l k)) ks) = map (\<lambda>k. (m k, f k)) ks"
  by (induction ks) simp_all

lemma forward_backward_trace:
  "trace (forward_backward hp fw s) =
     trace s @ map (\<lambda>k. Backward (int k) (sync_at hp s (int k))
                        (item (scaled_loss hp fw s k)))
                 [0..<nat (gradient_accumulation_steps hp)]"
  by (simp add: forward_backward_def py_range_upt micro_steps_trace)

lemma forward_backward_frame [simp]:
  "params (forward_backward hp fw s) = params s"
  "iter_num (forward_backward hp fw s) = iter_num s"
  "local_iter_num (forward_backward hp fw s) = local_iter_num s"
  "best_val_loss (forward_backward hp fw s) = best_val_loss s"
  "lr (forward_backward hp fw s) = lr s"
  "config (forward_backward hp fw s) = config s"
  by (simp_all add: forward_backward_def)

lemma forward_backward_grad:
  assumes "grad s = None"
  shows "grad (forward_backward hp fw s) =
           running_sum fw (map (\<lambda>k. grad_fn (scaled_loss hp fw s k))
                             [0..<nat (gradient_accumulation_steps hp)])"
  unfolding forward_backward_def py_range_upt by (rule micro_steps_grad [OF assms])

lemma forward_backward_loss:
  assumes "1 \<le> gradient_accumulation_steps hp"
  shows "loss (forward_backward hp fw s) =
           Some (scaled_loss hp fw s (nat (gradient_accumulation_steps hp) - 1))"
proof -
  from assms(1) obtain n where n: "nat (gradient_accumulation_steps hp) = Suc n"
    by (cases "nat (gradient_accumulation_steps hp)") auto
  show ?thesis
    unfolding forward_backward_def py_range_upt n micro_steps_loss by simp
qed

lemma optimizer_update_frame [simp]:
  "iter_num (optimizer_update hp fw s) = iter_num s"
  "local_iter_num (optimizer_update hp fw s) = local_iter_num s"
  "best_val_loss (optimizer_update hp fw s) = best_val_loss s"
  "loss (optimizer_update hp fw s) = loss s"
  "lr (optimizer_update hp fw s) = lr s"
  "config (optimizer_update hp fw s) = config s"
  "trace (optimizer_update hp fw s) = trace s @ [OptimizerStep (iter_num s)]"
  by (simp_all add: optimizer_update_def Let_def)

section \<open>One pass through the loop body\<close>

text \<open>
  What each phase leaves unchanged, whether it completes or raises, and the ways a pass
  through the body can end.
\<close>

lemma set_lr_frame:
  assumes "final_state (set_lr hp s) = s1"
  shows "iter_num s1 = iter_num s" "local_iter_num s1 = local_iter_num s"
    "params s1 = params s" "XY s1 = XY s" "batch_pos s1 = batch_pos s"
    "loss s1 = loss s" "grad s1 = grad s" "config s1 = config s"
    "best_val_loss s1 = best_val_loss s"
    "require_backward_grad_sync s1 = require_backward_grad_sync s"
    "trace s1 = trace s"
  using assms
  by (auto simp: set_lr_def final_state_def split: if_splits sum.splits)

lemma evaluate_and_checkpoint_frame:
  assumes "final_state (evaluate_and_checkpoint hp fw s) = s2"
  shows "iter_num s2 = iter_num s" "local_iter_num s2 = local_iter_num s"
    "params s2 = params s" "lr s2 = lr s" "XY s2 = XY s" "batch_pos s2 = batch_pos s"
    "loss s2 = loss s" "grad s2 = grad s" "config s2 = config s"
    "require_backward_grad_sync s2 = require_backward_grad_sync s"
    "optimizer_steps (trace s2) = optimizer_steps (trace s)"
    "backward_syncs (trace s2) = backward_syncs (trace s)"
  using assms
  by (auto simp: evaluate_and_checkpoint_def final_state_def Let_def split: if_splits option.splits)

lemma log_phase_frame:
  assumes "final_state (log_phase hp fw s) = s2"
  shows "iter_num s2 = iter_num s" "local_iter_num s2 = local_iter_num s"
    "params s2 = params s" "lr s2 = lr s" "XY s2 = XY s" "batch_pos s2 = batch_pos s"
    "loss s2 = loss s" "grad s2 = grad s" "config s2 = config s"
    "best_val_loss s2 = best_val_loss s"
    "require_backward_grad_sync s2 = require_backward_grad_sync s"
    "optimizer_steps (trace s2) = optimizer_steps (trace s)"
    "backward_syncs (trace s2) = backward_syncs (trace s)"
    "written_files (trace s2) = written_files (trace s)"
  using assms
  by (auto simp: log_phase_def final_state_def Let_def split: if_splits option.splits)

lemma final_state_simps [simp]:
  "final_state (Inl (e, s)) = s" "final_state (Inr s) = s"
  by (simp_all add: final_state_def)

lemma loop_body_Inr:
  assumes "loop_body hp fw s = Inr (c, s')"
  obtains (early) s1 where "set_lr hp s = Inr s1" "evaluate_and_checkpoint hp fw s1 = Inr s'"
      "iter_num s' = 0" "eval_only hp" "c = Break"
  | (full) s1 s2 s5 where "set_lr hp s = Inr s1" "evaluate_and_checkpoint hp fw s1 = Inr s2"
      "\<not> (iter_num s2 = 0 \<and> eval_only hp)"
      "log_phase hp fw (optimizer_update hp fw (forward_backward hp fw s2)) = Inr s5"
      "s' = s5\<lparr> iter_num := iter_num s5 + 1, local_iter_num := local_iter_num s5 + 1 \<rparr>"
      "c = (if iter_num s5 + 1 > max_iters hp then Break else Continue)"
  using assms
  by (auto simp: loop_body_def Let_def split: sum.splits if_splits)

lemma loop_body_Inl:
  assumes "loop_body hp fw s = Inl (e, s')"
  obtains (lr) "set_lr hp s = Inl (e, s')"
  | (eval) s1 where "set_lr hp s = Inr s1" "evaluate_and_checkpoint hp fw s1 = Inl (e, s')"
  | (log) s1 s2 where "set_lr hp s = Inr s1" "evaluate_and_checkpoint hp fw s1 = Inr s2"
      "\<not> (iter_num s2 = 0 \<and> eval_only hp)"
      "log_phase hp fw (optimizer_update hp fw (forward_backward hp fw s2)) = Inl (e, s')"
  using assms
  by (auto simp: loop_body_def Let_def split: sum.splits if_splits)

lemma loop_body_full:
  assumes run: "loop_body hp fw s = Inr (c, s')"
    and full: "\<not> (iter_num s = 0 \<and> eval_only hp)"
  shows "iter_num s' = iter_num s + 1"
    and "optimizer_steps (trace s') = optimizer_steps (trace s) @ [iter_num s]"
    and "c = (if iter_num s + 1 > max_iters hp then Break else Continue)"
proof -
  from run have "iter_num s' = iter_num s + 1
      \<and> optimizer_steps (trace s') = optimizer_steps (trace s) @ [iter_num s]
      \<and> c = (if iter_num s + 1 > max_iters hp then Break else Continue)"
  proof (cases rule: loop_body_Inr)
    case (early s1)
    from early(1) have "iter_num s1 = iter_num s"
      using set_lr_frame(1) [of hp s s1] by simp
    moreover from early(2) have "iter_num s' = iter_num s1"
      using evaluate_and_checkpoint_frame(1) [of hp fw s1 s'] by simp
    ultimately show ?thesis using early(3,4) full by simp
  next
    case (full s1 s2 s5)
    from full(1) have a: "iter_num s1 = iter_num s" "trace s1 = trace s"
      using set_lr_frame [of hp s s1] by simp_all
    from full(2) have b: "iter_num s2 = iter_num s1"
        "optimizer_steps (trace s2) = optimizer_steps (trace s1)"
      using evaluate_and_checkpoint_frame [of hp fw s1 s2] by simp_all
    let ?s4 = "optimizer_update hp fw (forward_backward hp fw s2)"
    from full(4) have c: "iter_num s5 = iter_num ?s4"
        "optimizer_steps (trace s5) = optimizer_steps (trace ?s4)"
      using log_phase_frame [of hp fw ?s4 s5] by simp_all
    have d: "optimizer_steps (trace ?s4) = optimizer_steps (trace s2) @ [iter_num s2]"
      by (simp add: forward_backward_trace)
    show ?thesis
      using a b c d full(5,6) by simp
  qed
  then show "iter_num s' = iter_num s + 1"
    and "optimizer_steps (trace s') = optimizer_steps (trace s) @ [iter_num s]"
    and "c = (if iter_num s + 1 > max_iters hp then Break else Continue)"
    by simp_all
qed

lemma loop_body_early:
  assumes run: "loop_body hp fw s = Inr (c, s')"
    and early: "iter_num s = 0" "eval_only hp"
  shows "c = Break" and "iter_num s' = 0" and "params s' = params s"
    and "optimizer_steps (trace s') = optimizer_steps (trace s)"
    and "backward_syncs (trace s') = backward_syncs (trace s)"
    and "grad s' = grad s" and "loss s' = loss s"
    and "XY s' = XY s" and "batch_pos s' = batch_pos s"
proof -
  from run have "c = Break \<and> iter_num s' = 0 \<and> params s' = params s
      \<and> optimizer_steps (trace s') = optimizer_steps (trace s)
      \<and> backward_syncs (trace s') = backward_syncs (trace s)
      \<and> grad s' = grad s \<and> loss s' = loss s \<and> XY s' = XY s \<and> batch_pos s' = batch_pos s"
  proof (cases rule: loop_body_Inr)
    case (early s1)
    show ?thesis
      using early(3,5) set_lr_frame [of hp s s1] evaluate_and_checkpoint_frame [of hp fw s1 s']
      by (simp add: early(1,2))
  next
    case (full s1 s2 s5)
    have "iter_num s2 = iter_num s"
      using set_lr_frame(1) [of hp s s1] evaluate_and_checkpoint_frame(1) [of hp fw s1 s2]
      by (simp add: full(1,2))
    with full(3) assms(2,3) show ?thesis by simp
  qed
  then show "c = Break" and "iter_num s' = 0" and "params s' = params s"
    and "optimizer_steps (trace s') = optimizer_steps (trace s)"
    and "backward_syncs (trace s') = backward_syncs (trace s)"
    and "grad s' = grad s" and "loss s' = loss s"
    and "XY s' = XY s" and "batch_pos s' = batch_pos s"
    by simp_all
qed

lemma loop_body_raise_early:
  assumes run: "loop_body hp fw s = Inl (e, s')"
    and early: "iter_num s = 0" "eval_only hp"
  shows "iter_num s' = 0 \<and> params s' = params s
      \<and> optimizer_steps (trace s') = optimizer_steps (trace s)
      \<and> backward_syncs (trace s') = backward_syncs (trace s)
      \<and> grad s' = grad s \<and> loss s' = loss s \<and> XY s' = XY s \<and> batch_pos s' = batch_pos s"
  using run
proof (cases rule: loop_body_Inl)
  case lr
  then show ?thesis
    using set_lr_frame [of hp s s'] early(1) by simp
next
  case (eval s1)
  then show ?thesis
    using set_lr_frame [of hp s s1] evaluate_and_checkpoint_frame [of hp fw s1 s'] early(1)
    by simp
next
  case (log s1 s2)
  have "iter_num s2 = iter_num s"
    using set_lr_frame(1) [of hp s s1] evaluate_and_checkpoint_frame(1) [of hp fw s1 s2]
    by (simp add: log(1,2))
  with log(3) early show ?thesis by simp
qed

text \<open>
  The loop unfolds once per pass. Every pass that continues has increased \<open>iter_num\<close> by
  one and kept it at most \<open>max_iters\<close>, which gives an induction principle for the loop
  and its termination.
\<close>

lemma train_loop_Inl:
  "loop_body hp fw s = Inl e \<Longrightarrow> train_loop hp fw s = Some (Inl e)"
  by (subst train_loop.simps) simp

lemma train_loop_Break:
  "loop_body hp fw s = Inr (Break, s') \<Longrightarrow> train_loop hp fw s = Some (Inr s')"
  by (subst train_loop.simps) simp

lemma train_loop_Continue:
  "loop_body hp fw s = Inr (Continue, s') \<Longrightarrow> train_loop hp fw s = train_loop hp fw s'"
  by (subst train_loop.simps) simp

lemma loop_body_Continue:
  assumes "loop_body hp fw s = Inr (Continue, s')"
  shows "iter_num s' = iter_num s + 1" and "iter_num s' \<le> max_iters hp"
    and "\<not> (iter_num s = 0 \<and> eval_only hp)"
proof -
  show full: "\<not> (iter_num s = 0 \<and> eval_only hp)"
    using loop_body_early(1) [OF assms] by auto
  show "iter_num s' = iter_num s + 1"
    using loop_body_full(1) [OF assms full] .
  show "iter_num s' \<le> max_iters hp"
    using loop_body_full(1,3) [OF assms full] by (simp split: if_splits)
qed

lemma train_loop_induct [case_names step]:
  assumes "\<And>s. (\<And>s'. loop_body hp fw s = Inr (Continue, s') \<Longrightarrow> P s') \<Longrightarrow> P s"
  shows "P s"
proof (induction "nat (max_iters hp - iter_num s)" arbitrary: s rule: less_induct)
  case less
  show ?case
  proof (rule assms)
    fix s'
    assume "loop_body hp fw s = Inr (Continue, s')"
    from loop_body_Continue(1,2) [OF this]
    have "nat (max_iters hp - iter_num s') < nat (max_iters hp - iter_num s)" by simp
    then show "P s'" by (rule less)
  qed
qed

lemma train_loop_terminates: "\<exists>r. train_loop hp fw s = Some r"
proof (induction s rule: train_loop_induct [where hp = hp and fw = fw])
  case (step s)
  show ?case
  proof (cases "loop_body hp fw s")
    case (Inl e)
    then show ?thesis by (simp add: train_loop_Inl)
  next
    case (Inr cs)
    obtain c s' where cs: "cs = (c, s')" by (cases cs)
    show ?thesis
    proof (cases c)
      case Break
      with Inr cs show ?thesis by (simp add: train_loop_Break)
    next
      case Continue
      with Inr cs have "loop_body hp fw s = Inr (Continue, s')" by simp
      then show ?thesis using step by (simp add: train_loop_Continue)
    qed
  qed
qed

section \<open>Running the small instance\<close>

lemmas toy_defs = toy_start_def toy_config_def toy_framework_def notebook_config_def
  notebook_start_def

lemmas run_defs = loop_body_def set_lr_def evaluate_and_checkpoint_def forward_backward_def
  py_range_def micro_step_body_def optimizer_update_def log_phase_def
  backward_def Let_def

lemma upt_2: "[0..<2] = [0, 1]"
  by (simp add: upt_rec numeral_2_eq_2)

lemma upt_3: "[0..<3] = [0, 1, 2]"
  by (simp add: upt_rec numeral_3_eq_3)

lemma toy_run:
  "\<exists>s'. train_loop toy_config toy_framework toy_start = Some (Inr s')"
  by (simp add: train_loop.simps toy_defs run_defs upt_2)

section \<open>Rounding\<close>

text \<open>
  A number with at most \<open>p\<close> significant bits and an exponent the format reaches is
  left unchanged by rounding; the float32 quotient \<open>1 / 3\<close> is not one third.
\<close>

lemma round_half_even_of_int [simp]: "round_half_even (of_int n) = n"
  by (simp add: round_half_even_def)

lemma round_binary_representable:
  assumes m: "\<bar>m\<bar> < 2 ^ p" and q: "emin - (int p - 1) \<le> q"
  shows "round_binary p emin (real_of_int m * 2 powr real_of_int q)
           = real_of_int m * 2 powr real_of_int q"
proof (cases "m = 0")
  case True
  then show ?thesis by (simp add: round_binary_def)
next
  case False
  let ?x = "real_of_int m * 2 powr real_of_int q"
  let ?e = "max \<lfloor>log 2 \<bar>?x\<bar>\<rfloor> emin"
  let ?d = "?e - (int p - 1)"
  from False have x0: "?x \<noteq> 0" by simp
  have absx: "\<bar>?x\<bar> = real_of_int \<bar>m\<bar> * 2 powr real_of_int q" by (simp add: abs_mult)
  from m have "real_of_int \<bar>m\<bar> < 2 ^ p" by (metis of_int_less_numeral_power_cancel_iff)
  then have "\<bar>?x\<bar> < 2 ^ p * 2 powr real_of_int q"
    unfolding absx by (simp)
  also have "\<dots> = 2 powr (real p + real_of_int q)"
    by (simp add: powr_add powr_realpow)
  finally have "log 2 \<bar>?x\<bar> < real p + real_of_int q"
    using x0 by (simp add: log_less_iff)
  then have "\<lfloor>log 2 \<bar>?x\<bar>\<rfloor> < int p + q" by linarith
  with q have d: "?d \<le> q" by simp
  then obtain j where j: "q = ?d + int j" by (metis zle_iff_zadd)
  define u :: real where "u = 2 powr real_of_int ?d"
  have u0: "u \<noteq> 0" by (simp add: u_def)
  have "2 powr real_of_int q = 2 powr (real_of_int ?d + real j)"
    by (subst j) simp
  also have "\<dots> = u * 2 ^ j"
    by (simp only: powr_add powr_realpow [of 2 j, simplified] u_def)
  finally have pq: "2 powr real_of_int q = u * 2 ^ j" .
  have quot: "?x / u = real_of_int (m * 2 ^ j)"
    using u0 by (simp add: pq)
  have "round_binary p emin ?x = real_of_int (round_half_even (?x / u)) * u"
    using x0 unfolding round_binary_def Let_def u_def by (simp only: if_False)
  also have "\<dots> = real_of_int (m * 2 ^ j) * u"
    by (simp only: quot round_half_even_of_int)
  also have "\<dots> = ?x"
    by (simp add: pq)
  finally show ?thesis .
qed

lemma float32_representable:
  "\<bar>m\<bar> < 2 ^ 24 \<Longrightarrow> - 149 \<le> q \<Longrightarrow>
   float32 (real_of_int m * 2 powr real_of_int q) = real_of_int m * 2 powr real_of_int q"
  unfolding float32_def by (rule round_binary_representable) simp_all

lemma float64_representable:
  "\<bar>m\<bar> < 2 ^ 53 \<Longrightarrow> - 1074 \<le> q \<Longrightarrow>
   float64 (real_of_int m * 2 powr real_of_int q) = real_of_int m * 2 powr real_of_int q"
  unfolding float64_def by (rule round_binary_representable) simp_all

lemma float32_3: "float32 3 = 3"
  using float32_representable [of 3 0] by simp

lemma float64_3: "float64 3 = 3"
  using float64_representable [of 3 0] by simp

lemma float32_third: "float32 (1 / 3) = 11184811 / 33554432"
proof -
  have e: "\<lfloor>log 2 \<bar>1 / 3 :: real\<bar>\<rfloor> = - 2"
  proof -
    have "(2::real) powr real_of_int (- 2) \<le> 1 / 3 \<and> 1 / 3 < (2::real) powr real_of_int (- 2 + 1)"
      by (simp add: powr_minus field_simps)
    then have "\<lfloor>log 2 (1 / 3 :: real)\<rfloor> = - 2"
      by (subst floor_log_eq_powr_iff) simp_all
    then show ?thesis by simp
  qed
  have u: "(2::real) powr real_of_int (max (- 2) (- 126) - (int 24 - 1)) = 1 / 33554432"
    by (simp add: powr_minus powr_numeral)
  have f: "\<lfloor>33554432 / 3 :: real\<rfloor> = 11184810" by linarith
  have r: "round_half_even (1 / 3 / (1 / 33554432)) = 11184811"
    by (simp add: round_half_even_def f)
  have "float32 (1 / 3) =
          real_of_int (round_half_even (1 / 3 / (1 / 33554432))) * (1 / 33554432)"
    unfolding float32_def round_binary_def Let_def e u by simp
  then show ?thesis by (simp only: r)
qed

lemma float64_product: "float64 (11184811 / 33554432 * 3) = 33554433 / 33554432"
proof -
  have u: "(2::real) powr real_of_int (- 25) = 1 / 33554432"
    by (simp add: powr_minus powr_numeral)
  have "float64 (real_of_int 33554433 * 2 powr real_of_int (- 25))
          = real_of_int 33554433 * 2 powr real_of_int (- 25)"
    by (rule float64_representable) simp_all
  then show ?thesis unfolding u by simp
qed

lemma float64_product_normal: "float64 (33554433 / 33554432) = 33554433 / 33554432"
  using float64_product by simp

lemma real_of_int_power_of_two: "real_of_int (2 ^ k) = real_of_int 1 * 2 powr real_of_int (int k)"
  by (simp add: powr_realpow)

text \<open>
  Dividing a float32 number by a power of two and multiplying back is exact, as long as the
  quotient stays above the smallest subnormal spacing.
\<close>

lemma ieee_power_of_two_exact:
  assumes ieee: "ieee_arithmetic fw"
    and x: "item t = real_of_int m * 2 powr real_of_int q" "\<bar>m\<bar> < 2 ^ 24"
    and low: "- 149 \<le> q - int k"
    and k: "k \<le> 62"
  shows "py_float_mul fw (item (tensor_div fw t (2 ^ k))) (2 ^ k) = item t"
proof -
  from k have "(2::int) ^ k < 2 ^ 63" by (intro power_strict_increasing) simp_all
  then have small: "\<bar>(2::int) ^ k\<bar> < 2 ^ 63" by simp
  have two32: "float32 (real_of_int (2 ^ k)) = real_of_int (2 ^ k)"
    unfolding real_of_int_power_of_two by (rule float32_representable) simp_all
  have two64: "float64 (real_of_int (2 ^ k)) = real_of_int (2 ^ k)"
    unfolding real_of_int_power_of_two by (rule float64_representable) simp_all
  have quot: "item t / real_of_int (2 ^ k) = real_of_int m * 2 powr real_of_int (q - int k)"
    by (simp add: x(1) powr_diff powr_realpow)
  have "item (tensor_div fw t (2 ^ k)) = float32 (item t / float32 (real_of_int (2 ^ k)))"
    using ieee small unfolding ieee_arithmetic_def by blast
  then have "item (tensor_div fw t (2 ^ k)) = float32 (item t / real_of_int (2 ^ k))"
    by (simp only: two32)
  also have "\<dots> = real_of_int m * 2 powr real_of_int (q - int k)"
    unfolding quot using x(2) low by (rule float32_representable)
  finally have div: "item (tensor_div fw t (2 ^ k)) = item t / real_of_int (2 ^ k)"
    by (simp only: quot)
  have "py_float_mul fw (item (tensor_div fw t (2 ^ k))) (2 ^ k)
          = float64 (item (tensor_div fw t (2 ^ k)) * float64 (real_of_int (2 ^ k)))"
    using ieee small unfolding ieee_arithmetic_def by blast
  also have "\<dots> = float64 (item t / real_of_int (2 ^ k) * real_of_int (2 ^ k))"
    by (simp only: div two64)
  also have "\<dots> = float64 (real_of_int m * 2 powr real_of_int q)"
    by (simp add: x(1))
  also have "\<dots> = real_of_int m * 2 powr real_of_int q"
  proof (rule float64_representable)
    from x(2) show "\<bar>m\<bar> < 2 ^ 53" by simp
    from low show "- 1074 \<le> q" by simp
  qed
  finally show ?thesis by (simp only: x(1))
qed

lemma float_framework_ieee: "ieee_arithmetic float_framework"
  by (simp add: ieee_arithmetic_def float_framework_def)

lemma toy_framework_exact: "exact_arithmetic toy_framework"
  by (simp add: exact_arithmetic_def toy_framework_def divide_inverse mult.commute)

text \<open>Without rounding the running sum of the scaled gradients is their mean.\<close>

lemma foldl_plus_sum_list:
  "foldl (+) (g :: 'a :: real_vector) gs = g + sum_list gs"
  by (induction gs arbitrary: g) (simp_all add: add.assoc)

lemma exact_running_sum:
  assumes "exact_arithmetic fw" and "0 < n"
  shows "running_sum fw (map (\<lambda>k. grad_fn (tensor_div fw (t k) G)) [0..<n])
           = Some ((\<Sum>k<n. grad_fn (t k)) /\<^sub>R real_of_int G)"
proof -
  from assms(2) obtain j where n: "n = Suc j" by (cases n) auto
  have acc: "accumulate fw = (+)"
    using assms(1) by (intro ext) (simp add: exact_arithmetic_def)
  have div: "\<And>k. grad_fn (tensor_div fw (t k) G) = grad_fn (t k) /\<^sub>R real_of_int G"
    using assms(1) by (simp add: exact_arithmetic_def)
  have "[0..<n] = 0 # [Suc 0..<n]" using assms(2) by (simp add: upt_conv_Cons)
  then have "running_sum fw (map (\<lambda>k. grad_fn (tensor_div fw (t k) G)) [0..<n])
               = Some (sum_list (map (\<lambda>k. grad_fn (t k) /\<^sub>R real_of_int G) [0..<n]))"
    by (simp add: running_sum_def acc div foldl_plus_sum_list)
  also have "sum_list (map (\<lambda>k. grad_fn (t k) /\<^sub>R real_of_int G) [0..<n])
               = (\<Sum>k<n. grad_fn (t k)) /\<^sub>R real_of_int G"
    by (simp add: interv_sum_list_conv_sum_set_nat scaleR_sum_right atLeast0LessThan)
  finally show ?thesis .
qed

section \<open>Gradient accumulation\<close>

text \<open>Every pass that continues leaves the gradient buffers empty for the next one.\<close>

lemma optimizer_update_grad [simp]: "grad (optimizer_update hp fw s) = None"
  by (simp add: optimizer_update_def Let_def)

lemma loop_body_Continue_grad:
  assumes "loop_body hp fw s = Inr (Continue, s')"
  shows "grad s' = None"
  using assms
proof (cases rule: loop_body_Inr)
  case (early s1)
  then show ?thesis by simp
next
  case (full s1 s2 s5)
  then show ?thesis
    using log_phase_frame(8) [of hp fw "optimizer_update hp fw (forward_backward hp fw s2)" s5]
    by simp
qed




section \<open>Gradient synchronisation under DDP\<close>

text \<open>
  Claim C7. Under DDP the backward passes of one iteration are those of the micro-steps
  \<open>0, ..., gradient_accumulation_steps - 1\<close> in order, and at each of them
  \<open>require_backward_grad_sync\<close> is true exactly when the micro-step is the last one.
\<close>

theorem ddp_sync_only_on_last_micro_step:
  assumes "ddp hp"
  shows "backward_syncs (trace (forward_backward hp fw s)) =
           backward_syncs (trace s) @
             map (\<lambda>micro_step. (micro_step, micro_step = gradient_accumulation_steps hp - 1))
               (py_range (gradient_accumulation_steps hp))"
  using assms by (simp add: forward_backward_trace sync_at_def py_range_def comp_def)

theorem ddp_sync_only_on_last_micro_step_witness:
  "backward_syncs (trace (forward_backward (toy_config\<lparr> ddp := True \<rparr>) toy_framework toy_start))
     = [(0, False), (1, True)]"
proof -
  have a: "ddp (toy_config\<lparr> ddp := True \<rparr>)"
    and b: "gradient_accumulation_steps (toy_config\<lparr> ddp := True \<rparr>) = 2"
      "trace toy_start = []"
    by (simp_all add: toy_defs)
  have c: "py_range 2 = [0, 1]" by (simp add: py_range_def upt_2)
  from ddp_sync_only_on_last_micro_step [OF a, of toy_framework toy_start]
  show ?thesis by (simp add: b c)
qed

section \<open>Evaluation, checkpoint and export\<close>

text \<open>
  Had \<open>config\<close> been bound, the branch would evaluate exactly when
  \<open>iter_num % eval_interval == 0\<close> on the master process, and write the checkpoint and the
  export exactly when moreover the validation loss is below \<open>best_val_loss\<close> or
  \<open>always_save_checkpoint\<close> holds, and \<open>iter_num > 0\<close>.
\<close>

lemma checkpoint_policy_when_config_bound:
  assumes "config s = Some c" and "eval_interval hp \<noteq> 0"
  shows "\<exists>s'. evaluate_and_checkpoint hp fw s = Inr s'
           \<and> trace s' = trace s @
                (if iter_num s mod eval_interval hp = 0 \<and> master_process hp
                 then Eval (iter_num s) #
                   (if (snd (estimate_loss fw (params s) (iter_num s)) < best_val_loss s
                          \<or> always_save_checkpoint hp) \<and> 0 < iter_num s
                    then [SaveCheckpoint (iter_num s)
                            (snd (estimate_loss fw (params s) (iter_num s))),
                          Export (iter_num s)]
                    else [])
                 else [])"
  using assms by (simp add: evaluate_and_checkpoint_def Let_def)

text \<open>Nothing happens outside an evaluation iteration of the master process.\<close>

lemma evaluation_runs_iff:
  "trace (final_state (evaluate_and_checkpoint hp fw s)) = trace s
     \<or> (eval_interval hp \<noteq> 0 \<and> iter_num s mod eval_interval hp = 0 \<and> master_process hp)"
  by (simp add: evaluate_and_checkpoint_def Let_def split: option.splits)

text \<open>With \<open>config\<close> unbound, as the notebook leaves it, no file is ever written.\<close>

lemma no_files_without_config:
  "config s = None \<Longrightarrow>
   written_files (trace (final_state (evaluate_and_checkpoint hp fw s))) = written_files (trace s)"
  by (simp add: evaluate_and_checkpoint_def Let_def)

lemma save_attempt_raises:
  assumes "config s = None" and "eval_interval hp \<noteq> 0"
    and "iter_num s mod eval_interval hp = 0" and "master_process hp"
    and "snd (estimate_loss fw (params s) (iter_num s)) < best_val_loss s
           \<or> always_save_checkpoint hp"
    and "0 < iter_num s"
  shows "evaluate_and_checkpoint hp fw s =
           Inl (NameError, s\<lparr> trace := trace s @ [Eval (iter_num s)],
                              best_val_loss := snd (estimate_loss fw (params s) (iter_num s)) \<rparr>)"
  using assms by (auto simp: evaluate_and_checkpoint_def Let_def)

text \<open>
  Claim C5. The notebook's configuration at iteration 2000 on the master process, with a
  validation loss of 3 below the best value 5: the evaluation runs and \<open>best_val_loss\<close>
  becomes 3, but building the checkpoint dictionary raises \<open>NameError\<close> on the unbound
  name \<open>config\<close>, so neither \<open>ckpt.pt\<close> nor \<open>model.bin\<close> is written.
\<close>

theorem checkpoint_save_raises_NameError:
  "evaluate_and_checkpoint notebook_config toy_framework
     ((notebook_start notebook_config toy_framework 3)\<lparr> iter_num := 2000, best_val_loss := 5 \<rparr>)
   = Inl (NameError,
       (notebook_start notebook_config toy_framework 3)
         \<lparr> iter_num := 2000, best_val_loss := 3, trace := [Eval 2000] \<rparr>)"
  by (simp add: evaluate_and_checkpoint_def toy_defs Let_def)

lemma forward_backward_files [simp]:
  "written_files (trace (forward_backward hp fw s)) = written_files (trace s)"
  by (simp add: forward_backward_trace)

lemma loop_body_writes_nothing:
  assumes "config s = None" and "final_state (map_sum id snd (loop_body hp fw s)) = s'"
  shows "written_files (trace s') = written_files (trace s) \<and> config s' = None"
proof (cases "loop_body hp fw s")
  case (Inl es)
  obtain e s0 where es: "es = (e, s0)" by (cases es)
  with Inl assms(2) have body: "loop_body hp fw s = Inl (e, s')" by simp
  then show ?thesis
  proof (cases rule: loop_body_Inl)
    case lr
    then show ?thesis using set_lr_frame [of hp s s'] assms(1) by simp
  next
    case (eval s1)
    then show ?thesis
      using set_lr_frame [of hp s s1] assms(1) no_files_without_config [of s1 hp fw]
        evaluate_and_checkpoint_frame(9) [of hp fw s1 s']
      by simp
  next
    case (log s1 s2)
    then show ?thesis
      using set_lr_frame [of hp s s1] assms(1) no_files_without_config [of s1 hp fw]
        evaluate_and_checkpoint_frame(9) [of hp fw s1 s2]
        log_phase_frame [of hp fw "optimizer_update hp fw (forward_backward hp fw s2)" s']
      by simp
  qed
next
  case (Inr cs)
  obtain c s0 where cs: "cs = (c, s0)" by (cases cs)
  with Inr assms(2) have body: "loop_body hp fw s = Inr (c, s')" by simp
  then show ?thesis
  proof (cases rule: loop_body_Inr)
    case (early s1)
    then show ?thesis
      using set_lr_frame [of hp s s1] assms(1) no_files_without_config [of s1 hp fw]
        evaluate_and_checkpoint_frame(9) [of hp fw s1 s']
      by simp
  next
    case (full s1 s2 s5)
    then show ?thesis
      using set_lr_frame [of hp s s1] assms(1) no_files_without_config [of s1 hp fw]
        evaluate_and_checkpoint_frame(9) [of hp fw s1 s2]
        log_phase_frame [of hp fw "optimizer_update hp fw (forward_backward hp fw s2)" s5]
      by simp
  qed
qed

lemma train_loop_writes_nothing:
  "config s = None \<Longrightarrow> train_loop hp fw s = Some r \<Longrightarrow>
   written_files (trace (final_state r)) = written_files (trace s)"
proof (induction s rule: train_loop_induct [where hp = hp and fw = fw])
  case (step s)
  show ?case
  proof (cases "loop_body hp fw s")
    case (Inl es)
    obtain e s' where es: "es = (e, s')" by (cases es)
    with Inl step.prems(2) have "r = Inl (e, s')" by (simp add: train_loop_Inl)
    with loop_body_writes_nothing [OF step.prems(1), of hp fw s'] Inl es show ?thesis by simp
  next
    case (Inr cs)
    obtain c s' where cs: "cs = (c, s')" by (cases cs)
    with Inr have body: "loop_body hp fw s = Inr (c, s')" by simp
    with loop_body_writes_nothing [OF step.prems(1), of hp fw s']
    have same: "written_files (trace s') = written_files (trace s)" "config s' = None"
      by simp_all
    show ?thesis
    proof (cases c)
      case Break
      with body step.prems(2) have "r = Inr s'" by (simp add: train_loop_Break)
      with same show ?thesis by simp
    next
      case Continue
      with body have cont: "loop_body hp fw s = Inr (Continue, s')" by simp
      with step.prems(2) have "train_loop hp fw s' = Some r" by (simp add: train_loop_Continue)
      from step.IH [OF cont same(2) this] same(1) show ?thesis by simp
    qed
  qed
qed

section \<open>The best validation loss\<close>

lemma evaluate_best_val_loss:
  "best_val_loss (final_state (evaluate_and_checkpoint hp fw s)) =
     (if eval_interval hp \<noteq> 0 \<and> iter_num s mod eval_interval hp = 0 \<and> master_process hp
      then (if always_save_checkpoint hp then snd (estimate_loss fw (params s) (iter_num s))
            else min (best_val_loss s) (snd (estimate_loss fw (params s) (iter_num s))))
      else best_val_loss s)"
  by (auto simp: evaluate_and_checkpoint_def Let_def min_def split: option.splits)

lemma evaluate_best_le:
  "\<not> always_save_checkpoint hp \<Longrightarrow>
   best_val_loss (final_state (evaluate_and_checkpoint hp fw s)) \<le> best_val_loss s"
  by (simp add: evaluate_best_val_loss)

lemma loop_body_best_le:
  assumes "\<not> always_save_checkpoint hp"
  shows "loop_body hp fw s = Inr (c, s') \<Longrightarrow> best_val_loss s' \<le> best_val_loss s"
    and "loop_body hp fw s = Inl (e, s') \<Longrightarrow> best_val_loss s' \<le> best_val_loss s"
proof -
  assume "loop_body hp fw s = Inr (c, s')"
  then show "best_val_loss s' \<le> best_val_loss s"
  proof (cases rule: loop_body_Inr)
    case (early s1)
    then show ?thesis
      using set_lr_frame(9) [of hp s s1] evaluate_best_le [OF assms, of fw s1] by simp
  next
    case (full s1 s2 s5)
    then show ?thesis
      using set_lr_frame(9) [of hp s s1] evaluate_best_le [OF assms, of fw s1]
        log_phase_frame(10) [of hp fw "optimizer_update hp fw (forward_backward hp fw s2)" s5]
      by simp
  qed
next
  assume "loop_body hp fw s = Inl (e, s')"
  then show "best_val_loss s' \<le> best_val_loss s"
  proof (cases rule: loop_body_Inl)
    case lr
    then show ?thesis using set_lr_frame(9) [of hp s s'] by simp
  next
    case (eval s1)
    then show ?thesis
      using set_lr_frame(9) [of hp s s1] evaluate_best_le [OF assms, of fw s1] by simp
  next
    case (log s1 s2)
    then show ?thesis
      using set_lr_frame(9) [of hp s s1] evaluate_best_le [OF assms, of fw s1]
        log_phase_frame(10) [of hp fw "optimizer_update hp fw (forward_backward hp fw s2)" s']
      by simp
  qed
qed

lemma train_loop_best_le:
  "\<not> always_save_checkpoint hp \<Longrightarrow> train_loop hp fw s = Some r \<Longrightarrow>
   best_val_loss (final_state r) \<le> best_val_loss s"
proof (induction s rule: train_loop_induct [where hp = hp and fw = fw])
  case (step s)
  show ?case
  proof (cases "loop_body hp fw s")
    case (Inl es)
    obtain e s' where es: "es = (e, s')" by (cases es)
    with Inl step.prems(2) have "r = Inl (e, s')" by (simp add: train_loop_Inl)
    with loop_body_best_le(2) [OF step.prems(1), of fw s e s'] Inl es show ?thesis by simp
  next
    case (Inr cs)
    obtain c s' where cs: "cs = (c, s')" by (cases cs)
    with Inr have body: "loop_body hp fw s = Inr (c, s')" by simp
    note le = loop_body_best_le(1) [OF step.prems(1) body]
    show ?thesis
    proof (cases c)
      case Break
      with body step.prems(2) have "r = Inr s'" by (simp add: train_loop_Break)
      with le show ?thesis by simp
    next
      case Continue
      with body have cont: "loop_body hp fw s = Inr (Continue, s')" by simp
      with step.prems(2) have "train_loop hp fw s' = Some r" by (simp add: train_loop_Continue)
      from step.IH [OF cont step.prems(1) this] le show ?thesis by simp
    qed
  qed
qed

text \<open>
  Claim C8. \<open>best_val_loss\<close> starts at \<open>1e9\<close>. At an evaluation (the master process at an
  iteration divisible by \<open>eval_interval\<close>) its new value is the minimum of its old value
  and the measured validation loss when \<open>always_save_checkpoint\<close> is false, and the
  measured validation loss itself when \<open>always_save_checkpoint\<close> is true. Hence without
  \<open>always_save_checkpoint\<close> it never increases over a run, however the run ends; with
  \<open>always_save_checkpoint\<close> an evaluation that measures a worse loss increases it.
\<close>

theorem best_validation_loss_update:
  "best_val_loss (notebook_start hp fw p0) = 1000000000
   \<and> (eval_interval hp \<noteq> 0 \<and> iter_num s mod eval_interval hp = 0 \<and> master_process hp \<longrightarrow>
        best_val_loss (final_state (evaluate_and_checkpoint hp fw s)) =
          (if always_save_checkpoint hp then snd (estimate_loss fw (params s) (iter_num s))
           else min (best_val_loss s) (snd (estimate_loss fw (params s) (iter_num s)))))
   \<and> (\<not> always_save_checkpoint hp \<longrightarrow>
        (\<forall>r. train_loop hp fw s = Some r \<longrightarrow>
           best_val_loss (final_state r) \<le> best_val_loss s))
   \<and> (always_save_checkpoint hp \<and> eval_interval hp \<noteq> 0
        \<and> iter_num s mod eval_interval hp = 0 \<and> master_process hp
        \<and> best_val_loss s < snd (estimate_loss fw (params s) (iter_num s)) \<longrightarrow>
        best_val_loss s < best_val_loss (final_state (evaluate_and_checkpoint hp fw s)))"
proof (intro conjI impI allI)
  show "best_val_loss (notebook_start hp fw p0) = 1000000000"
    by (simp add: notebook_start_def)
next
  assume "eval_interval hp \<noteq> 0 \<and> iter_num s mod eval_interval hp = 0 \<and> master_process hp"
  then show "best_val_loss (final_state (evaluate_and_checkpoint hp fw s)) =
          (if always_save_checkpoint hp then snd (estimate_loss fw (params s) (iter_num s))
           else min (best_val_loss s) (snd (estimate_loss fw (params s) (iter_num s))))"
    by (simp add: evaluate_best_val_loss)
next
  fix r
  assume "\<not> always_save_checkpoint hp" "train_loop hp fw s = Some r"
  then show "best_val_loss (final_state r) \<le> best_val_loss s"
    by (rule train_loop_best_le)
next
  assume "always_save_checkpoint hp \<and> eval_interval hp \<noteq> 0
        \<and> iter_num s mod eval_interval hp = 0 \<and> master_process hp
        \<and> best_val_loss s < snd (estimate_loss fw (params s) (iter_num s))"
  then show "best_val_loss s < best_val_loss (final_state (evaluate_and_checkpoint hp fw s))"
    by (simp add: evaluate_best_val_loss)
qed

text \<open>
  On the small instance: the first evaluation lowers \<open>1e9\<close> to 3; with
  \<open>always_save_checkpoint\<close> a best value of 2 is overwritten by the worse 3.
\<close>

theorem best_validation_loss_update_witness:
  "best_val_loss (final_state (evaluate_and_checkpoint toy_config toy_framework toy_start)) = 3
   \<and> best_val_loss (final_state (evaluate_and_checkpoint
         (toy_config\<lparr> always_save_checkpoint := True \<rparr>) toy_framework
         (toy_start\<lparr> best_val_loss := 2 \<rparr>))) = 3
   \<and> (\<exists>r. train_loop toy_config toy_framework toy_start = Some r
          \<and> best_val_loss (final_state r) \<le> 1000000000)"
proof -
  let ?hp = "toy_config\<lparr> always_save_checkpoint := True \<rparr>"
  let ?s = "toy_start\<lparr> best_val_loss := 2 \<rparr>"
  have a: "eval_interval toy_config \<noteq> 0 \<and> iter_num toy_start mod eval_interval toy_config = 0
            \<and> master_process toy_config"
    and b: "\<not> always_save_checkpoint toy_config"
    and c: "snd (estimate_loss toy_framework (params toy_start) (iter_num toy_start)) = 3"
      "best_val_loss toy_start = 1000000000"
    by (simp_all add: toy_defs)
  have d: "always_save_checkpoint ?hp" "eval_interval ?hp \<noteq> 0 \<and> iter_num ?s mod eval_interval ?hp = 0
            \<and> master_process ?hp"
    and e: "snd (estimate_loss toy_framework (params ?s) (iter_num ?s)) = 3"
    by (simp_all add: toy_defs)
  from toy_run obtain s' where run: "train_loop toy_config toy_framework toy_start = Some (Inr s')"
    by blast
  from best_validation_loss_update [of toy_config toy_framework 3 toy_start] a b c run
  have first: "best_val_loss (final_state (evaluate_and_checkpoint toy_config toy_framework toy_start)) = 3"
    and third: "best_val_loss (final_state (Inr s')) \<le> 1000000000"
    by auto
  from best_validation_loss_update [of ?hp toy_framework 3 ?s] d e
  have second: "best_val_loss (final_state (evaluate_and_checkpoint ?hp toy_framework ?s)) = 3"
    by simp
  from first second third run show ?thesis by blast
qed

section \<open>Termination and the number of iterations\<close>

text \<open>
  From any starting iteration at which \<open>eval_only\<close> does not apply: a run that reaches its
  \<open>break\<close> has performed the updates \<open>iter_num, ..., max iter_num max_iters\<close>.
\<close>

lemma train_loop_steps:
  "eval_only hp \<longrightarrow> 0 < iter_num s \<Longrightarrow> train_loop hp fw s = Some (Inr s') \<Longrightarrow>
   optimizer_steps (trace s') =
     optimizer_steps (trace s) @ [iter_num s..max (iter_num s) (max_iters hp)]
   \<and> iter_num s' = max (iter_num s) (max_iters hp) + 1"
proof (induction s rule: train_loop_induct [where hp = hp and fw = fw])
  case (step s)
  from step.prems(2) obtain c s1 where body: "loop_body hp fw s = Inr (c, s1)"
    by (cases "loop_body hp fw s") (auto simp: train_loop_Inl)
  have full: "\<not> (iter_num s = 0 \<and> eval_only hp)"
    using step.prems(1) by auto
  note facts = loop_body_full [OF body full]
  show ?case
  proof (cases c)
    case Break
    with body step.prems(2) have "s' = s1" by (simp add: train_loop_Break)
    moreover from Break facts(3) have "max_iters hp < iter_num s + 1"
      by (simp split: if_splits)
    ultimately show ?thesis using facts(1,2) by (simp add: max_def)
  next
    case Continue
    with body have cont: "loop_body hp fw s = Inr (Continue, s1)" by simp
    with step.prems(2) have "train_loop hp fw s1 = Some (Inr s')"
      by (simp add: train_loop_Continue)
    moreover from step.prems(1) facts(1) have "eval_only hp \<longrightarrow> 0 < iter_num s1" by auto
    ultimately have "optimizer_steps (trace s') =
                optimizer_steps (trace s1) @ [iter_num s1..max (iter_num s1) (max_iters hp)]
              \<and> iter_num s' = max (iter_num s1) (max_iters hp) + 1"
      using step.IH [OF cont] by blast
    then have ih: "optimizer_steps (trace s') =
                optimizer_steps (trace s1) @ [iter_num s1..max (iter_num s1) (max_iters hp)]"
      "iter_num s' = max (iter_num s1) (max_iters hp) + 1"
      by simp_all
    from Continue facts(3) have le: "iter_num s + 1 \<le> max_iters hp"
      by (simp split: if_splits)
    then have "[iter_num s..max_iters hp] = iter_num s # [iter_num s + 1..max_iters hp]"
      by (simp add: upto_rec1)
    with ih le facts(1,2) show ?thesis by (simp add: max_def)
  qed
qed

text \<open>
  When a run reaches its \<open>break\<close>. The schedule raises only for \<open>warmup_iters = 0\<close> or
  \<open>warmup_iters = lr_decay_iters\<close>, the two modulo tests only for a zero interval; the
  master process moreover reads \<open>config\<close> when it saves and \<open>loss\<close> when it logs. So every
  other process of a distributed run reaches its \<open>break\<close>, and the master process would if
  \<open>config\<close> were bound and at least one micro-step ran per iteration.
\<close>

lemma get_lr_succeeds:
  assumes "warmup_iters hp \<noteq> 0" and "warmup_iters hp \<noteq> lr_decay_iters hp"
  shows "\<exists>r. get_lr hp it = Inr r"
proof (cases "it < warmup_iters hp \<or> it > lr_decay_iters hp")
  case True
  then show ?thesis using assms(1) by (auto simp: get_lr_def)
next
  case False
  then have range: "warmup_iters hp \<le> it" "it \<le> lr_decay_iters hp" by simp_all
  with assms(2) have pos: "0 < lr_decay_iters hp - warmup_iters hp" by simp
  let ?r = "real_of_int (it - warmup_iters hp) / real_of_int (lr_decay_iters hp - warmup_iters hp)"
  from range pos have "0 \<le> ?r" by simp
  moreover from range pos have "?r \<le> 1" by simp
  ultimately show ?thesis using False pos by (simp add: get_lr_def Let_def)
qed

lemma set_lr_succeeds:
  assumes "decay_lr hp \<longrightarrow> warmup_iters hp \<noteq> 0 \<and> warmup_iters hp \<noteq> lr_decay_iters hp"
  shows "\<exists>s1. set_lr hp s = Inr s1"
proof (cases "decay_lr hp")
  case True
  with assms get_lr_succeeds [of hp "iter_num s"] show ?thesis
    by (auto simp: set_lr_def)
next
  case False
  then show ?thesis by (simp add: set_lr_def)
qed

lemma evaluate_succeeds:
  assumes "eval_interval hp \<noteq> 0" and "\<not> master_process hp \<or> config s \<noteq> None"
  shows "\<exists>s2. evaluate_and_checkpoint hp fw s = Inr s2"
  using assms by (auto simp: evaluate_and_checkpoint_def Let_def)

lemma log_phase_succeeds:
  assumes "log_interval hp \<noteq> 0" and "\<not> master_process hp \<or> loss s \<noteq> None"
  shows "\<exists>s5. log_phase hp fw s = Inr s5"
  using assms by (auto simp: log_phase_def Let_def)

lemma loop_body_succeeds:
  assumes "eval_interval hp \<noteq> 0" and "log_interval hp \<noteq> 0"
    and "decay_lr hp \<longrightarrow> warmup_iters hp \<noteq> 0 \<and> warmup_iters hp \<noteq> lr_decay_iters hp"
    and "\<not> master_process hp \<or> (config s \<noteq> None \<and> 1 \<le> gradient_accumulation_steps hp)"
  shows "\<exists>c s'. loop_body hp fw s = Inr (c, s') \<and> config s' = config s"
proof -
  from set_lr_succeeds [OF assms(3)] obtain s1 where s1: "set_lr hp s = Inr s1" by blast
  then have c1: "config s1 = config s" using set_lr_frame(8) [of hp s s1] by simp
  with assms(4) have "\<not> master_process hp \<or> config s1 \<noteq> None" by auto
  from evaluate_succeeds [OF assms(1) this] obtain s2
    where s2: "evaluate_and_checkpoint hp fw s1 = Inr s2" by blast
  then have c2: "config s2 = config s1"
    using evaluate_and_checkpoint_frame(9) [of hp fw s1 s2] by simp
  show ?thesis
  proof (cases "iter_num s2 = 0 \<and> eval_only hp")
    case True
    with s1 s2 c1 c2 show ?thesis by (simp add: loop_body_def)
  next
    case False
    let ?s4 = "optimizer_update hp fw (forward_backward hp fw s2)"
    have "\<not> master_process hp \<or> loss ?s4 \<noteq> None"
      using assms(4) forward_backward_loss [of hp fw s2] by auto
    from log_phase_succeeds [OF assms(2) this, of fw] obtain s5 where s5: "log_phase hp fw ?s4 = Inr s5"
      by blast
    then have c5: "config s5 = config ?s4" using log_phase_frame(9) [of hp fw ?s4 s5] by simp
    from False s1 s2 s5 c1 c2 c5 show ?thesis
      by (auto simp: loop_body_def Let_def)
  qed
qed

lemma train_loop_reaches_break:
  assumes "eval_interval hp \<noteq> 0" and "log_interval hp \<noteq> 0"
    and "decay_lr hp \<longrightarrow> warmup_iters hp \<noteq> 0 \<and> warmup_iters hp \<noteq> lr_decay_iters hp"
  shows "\<not> master_process hp \<or> (config s \<noteq> None \<and> 1 \<le> gradient_accumulation_steps hp) \<Longrightarrow>
         \<exists>s'. train_loop hp fw s = Some (Inr s')"
proof (induction s rule: train_loop_induct [where hp = hp and fw = fw])
  case (step s)
  from loop_body_succeeds [OF assms step.prems, of fw]
  obtain c s' where body: "loop_body hp fw s = Inr (c, s')" and cfg: "config s' = config s"
    by blast
  show ?case
  proof (cases c)
    case Break
    with body show ?thesis by (simp add: train_loop_Break)
  next
    case Continue
    with body have cont: "loop_body hp fw s = Inr (Continue, s')" by simp
    from step.prems cfg have "\<not> master_process hp
        \<or> (config s' \<noteq> None \<and> 1 \<le> gradient_accumulation_steps hp)" by simp
    from step.IH [OF cont this] cont show ?thesis by (simp add: train_loop_Continue)
  qed
qed

text \<open>
  So, started at iteration 0 without \<open>eval_only\<close> and with \<open>max_iters \<ge> 0\<close>, a run that
  reaches its \<open>break\<close> has performed the \<open>max_iters + 1\<close> updates of the iterations
  \<open>0, ..., max_iters\<close>.
\<close>

lemma train_loop_updates_at_break:
  assumes "\<not> eval_only hp" and "iter_num s = 0" and "0 \<le> max_iters hp"
    and run: "train_loop hp fw s = Some (Inr s')"
  shows "optimizer_steps (trace s') = optimizer_steps (trace s) @ [0..max_iters hp]"
    and "int (length (optimizer_steps (trace s'))) =
           int (length (optimizer_steps (trace s))) + (max_iters hp + 1)"
    and "iter_num s' = max_iters hp + 1"
proof -
  from assms(1) have "eval_only hp \<longrightarrow> 0 < iter_num s" by simp
  from train_loop_steps [OF this run] assms(2,3)
  show steps: "optimizer_steps (trace s') = optimizer_steps (trace s) @ [0..max_iters hp]"
    and "iter_num s' = max_iters hp + 1"
    by (simp_all add: max_def)
  show "int (length (optimizer_steps (trace s'))) =
          int (length (optimizer_steps (trace s))) + (max_iters hp + 1)"
    using assms(3) by (simp add: steps)
qed

text \<open>
  Claim C9. The small instance with \<open>max_iters = 2\<close>, started at iteration 0 without
  \<open>eval_only\<close>: the loop does terminate, but after the updates of iterations 0 and 1 the
  evaluation at iteration 2 finds a better validation loss, the master process starts to
  save, and the unbound name \<open>config\<close> raises \<open>NameError\<close>. The run has performed two
  optimizer updates, not \<open>max_iters + 1 = 3\<close>.
\<close>

theorem train_loop_stops_at_first_checkpoint:
  "run_summary (train_loop (toy_config\<lparr> max_iters := 2 \<rparr>) toy_framework toy_start)
     = Some (Some NameError, [0, 1])
   \<and> \<not> eval_only (toy_config\<lparr> max_iters := 2 \<rparr>) \<and> iter_num toy_start = 0
   \<and> max_iters (toy_config\<lparr> max_iters := 2 \<rparr>) + 1 = 3"
  by (simp add: train_loop.simps toy_defs run_defs upt_2 run_summary_def)

section \<open>The \<open>eval_only\<close> flag\<close>

lemma micro_steps_eval_only [simp]:
  "micro_steps (hp\<lparr> eval_only := b \<rparr>) fw ms s = micro_steps hp fw ms s"
  by (induction ms arbitrary: s) (simp_all add: micro_step_body_def)

lemma phases_eval_only [simp]:
  "set_lr (hp\<lparr> eval_only := b \<rparr>) s = set_lr hp s"
  "evaluate_and_checkpoint (hp\<lparr> eval_only := b \<rparr>) fw s = evaluate_and_checkpoint hp fw s"
  "forward_backward (hp\<lparr> eval_only := b \<rparr>) fw s = forward_backward hp fw s"
  "optimizer_update (hp\<lparr> eval_only := b \<rparr>) fw s = optimizer_update hp fw s"
  "log_phase (hp\<lparr> eval_only := b \<rparr>) fw s = log_phase hp fw s"
  by (simp_all add: set_lr_def get_lr_def evaluate_and_checkpoint_def forward_backward_def
        optimizer_update_def log_phase_def cong: option.case_cong)

lemma loop_body_eval_only:
  assumes "iter_num s \<noteq> 0"
  shows "loop_body (hp\<lparr> eval_only := b \<rparr>) fw s = loop_body hp fw s"
proof (cases "set_lr hp s")
  case (Inl e)
  then show ?thesis by (simp add: loop_body_def)
next
  case (Inr s1)
  note lr = this
  show ?thesis
  proof (cases "evaluate_and_checkpoint hp fw s1")
    case (Inl e)
    with lr show ?thesis by (simp add: loop_body_def)
  next
    case (Inr s2)
    have "iter_num s2 = iter_num s"
      using set_lr_frame(1) [of hp s s1] evaluate_and_checkpoint_frame(1) [of hp fw s1 s2]
      by (simp add: lr Inr)
    with assms lr Inr show ?thesis by (simp add: loop_body_def cong: sum.case_cong)
  qed
qed

lemma train_loop_eval_only:
  "0 < iter_num s \<Longrightarrow> train_loop (hp\<lparr> eval_only := b \<rparr>) fw s = train_loop hp fw s"
proof (induction s rule: train_loop_induct [where hp = hp and fw = fw])
  case (step s)
  from step.prems have same: "loop_body (hp\<lparr> eval_only := b \<rparr>) fw s = loop_body hp fw s"
    by (intro loop_body_eval_only) simp
  show ?case
  proof (cases "loop_body hp fw s")
    case (Inl e)
    with same show ?thesis by (simp add: train_loop_Inl)
  next
    case (Inr cs)
    obtain c s1 where cs: "cs = (c, s1)" by (cases cs)
    show ?thesis
    proof (cases c)
      case Break
      with Inr cs same show ?thesis by (simp add: train_loop_Break)
    next
      case Continue
      with Inr cs have cont: "loop_body hp fw s = Inr (Continue, s1)" by simp
      from loop_body_Continue(1) [OF cont] step.prems have "0 < iter_num s1" by simp
      from step.IH [OF cont this] cont same show ?thesis
        by (simp add: train_loop_Continue)
    qed
  qed
qed

lemma evaluate_at_zero:
  assumes "eval_interval hp \<noteq> 0" "iter_num s = 0"
  shows "\<exists>s'. evaluate_and_checkpoint hp fw s = Inr s'
           \<and> trace s' = trace s @ (if master_process hp then [Eval 0] else [])"
  using assms by (simp add: evaluate_and_checkpoint_def Let_def)

lemma train_loop_early:
  assumes "eval_only hp" and "iter_num s = 0"
  shows "train_loop hp fw s = Some (map_sum id snd (loop_body hp fw s))"
proof (cases "loop_body hp fw s")
  case (Inl e)
  then show ?thesis by (simp add: train_loop_Inl)
next
  case (Inr cs)
  obtain c s' where cs: "cs = (c, s')" by (cases cs)
  with Inr have body: "loop_body hp fw s = Inr (c, s')" by simp
  from loop_body_early(1) [OF body assms(2,1)] body show ?thesis
    by (simp add: train_loop_Break)
qed

lemma loop_body_early_lr:
  assumes "eval_only hp" and "iter_num s = 0"
  shows "lr (final_state (map_sum id snd (loop_body hp fw s))) = lr (final_state (set_lr hp s))"
proof (cases "set_lr hp s")
  case (Inl es)
  then show ?thesis by (cases es) (simp add: loop_body_def)
next
  case (Inr s1)
  note set = this
  have i1: "iter_num s1 = 0" using set_lr_frame(1) [of hp s s1] set assms(2) by simp
  show ?thesis
  proof (cases "evaluate_and_checkpoint hp fw s1")
    case (Inl es)
    obtain e s2 where es: "es = (e, s2)" by (cases es)
    with Inl have "lr s2 = lr s1"
      using evaluate_and_checkpoint_frame(4) [of hp fw s1 s2] by simp
    with set Inl es show ?thesis by (simp add: loop_body_def)
  next
    case (Inr s2)
    then have "lr s2 = lr s1" "iter_num s2 = 0"
      using evaluate_and_checkpoint_frame(4,1) [of hp fw s1 s2] i1 by simp_all
    with set Inr assms(1) show ?thesis by (simp add: loop_body_def)
  qed
qed

lemma set_lr_at_zero:
  assumes "iter_num s = 0"
  shows "\<not> decay_lr hp \<Longrightarrow> lr (final_state (set_lr hp s)) = learning_rate hp"
    and "decay_lr hp \<Longrightarrow> 0 < warmup_iters hp \<Longrightarrow> lr (final_state (set_lr hp s)) = 0"
  using assms by (simp_all add: set_lr_def get_lr_def)


lemma toy_resumed_run:
  "\<exists>s'. train_loop (toy_config\<lparr> eval_only := True \<rparr>) toy_framework
          (toy_start\<lparr> iter_num := 1 \<rparr>) = Some (Inr s')"
  by (simp add: train_loop.simps toy_defs run_defs upt_2)



end
